theory Spec2Isabelle
  imports Complex_Main "HOL-Library.AList" "HOL-Library.Sublist"
begin

section \<open>LM Studio Sidekick: rate limiter, context store and batch dispatch\<close>

text \<open>
  A shallow embedding of \<^verbatim>\<open>lmstudio_sidekick.py\<close>. The module keeps two process-wide
  dictionaries, \<^verbatim>\<open>rate_limiter\<close> and \<^verbatim>\<open>context_store\<close>; every tool function
  is modelled as a function from the state before the call to its returned text and the state
  after it. What the module reads from outside (the clock, the backend's answers) is a
  parameter of the model.
\<close>

subsection \<open>Configuration, environment and state\<close>

text \<open>
  The module-level constants are read once from environment variables with \<^verbatim>\<open>int(os.getenv ...)\<close>,
  so they are arbitrary Python integers; the defaults are 60, 30 and 32000.
\<close>

record config =
  LMSTUDIO_HOST :: string
  LMSTUDIO_PORT :: string
  RATE_LIMIT_WINDOW :: int
  RATE_LIMIT_MAX_REQUESTS :: int
  MAX_CONTEXT_SIZE :: int

definition default_config :: config where
  "default_config =
     \<lparr>LMSTUDIO_HOST = ''localhost'', LMSTUDIO_PORT = ''1234'', RATE_LIMIT_WINDOW = 60,
      RATE_LIMIT_MAX_REQUESTS = 30, MAX_CONTEXT_SIZE = 32000\<rparr>"

text \<open>
  The body of one HTTP answer, as far as \<^verbatim>\<open>chat_completion\<close> looks at it: either decoding
  or navigating the JSON raises (with the exception's text), or there is a list of choices, each
  given by the \<^verbatim>\<open>content\<close> of its message (the empty string when the field is missing).
\<close>

datatype payload = Malformed string | Choices "string list"

text \<open>
  \<^verbatim>\<open>requests.post\<close> either raises (connection refused, timeout; the text is \<^verbatim>\<open>str(e)\<close>)
  or returns a response with a status code and a body.
\<close>

datatype backend_reply = Raises string | Response int payload

text \<open>The JSON body posted to \<^verbatim>\<open>/chat/completions\<close>.\<close>

record request =
  messages :: "(string \<times> string) list"
  temperature :: real
  max_tokens :: int

text \<open>
  The environment: the \<open>k\<close>-th reading of \<^verbatim>\<open>time.time()\<close>, the \<open>k\<close>-th reading of
  \<^verbatim>\<open>datetime.now().isoformat()\<close> that is stored in an entry, and the backend's answer to
  the \<open>k\<close>-th request. Timestamps are real numbers: the rounding of Python's floats is not
  modelled.
\<close>

record world =
  clock :: "nat \<Rightarrow> real"
  isoformat :: "nat \<Rightarrow> string"
  backend :: "nat \<Rightarrow> backend_reply"

text \<open>An entry of \<^verbatim>\<open>context_store\<close>: the dictionary with keys data, timestamp and tokens.\<close>

record context_entry =
  data :: string
  timestamp :: string
  tokens :: int

text \<open>
  \<^verbatim>\<open>rate_limiter\<close> is a \<^verbatim>\<open>defaultdict(list)\<close>: a total function whose default is the
  empty list. \<^verbatim>\<open>context_store\<close> is a dictionary, which keeps insertion order: an association
  list written with \<^const>\<open>AList.update\<close> (overwrite in place, append a new key) and read with
  \<^const>\<open>map_of\<close>. The counters say how many readings of each clock were made; \<open>posted\<close>
  is the log of the requests sent to the backend.
\<close>

record state =
  rate_limiter :: "string \<Rightarrow> real list"
  context_store :: "(string \<times> context_entry) list"
  time_reads :: nat
  iso_reads :: nat
  posted :: "request list"

definition initial_state :: state where
  "initial_state =
     \<lparr>rate_limiter = (\<lambda>_. []), context_store = [], time_reads = 0, iso_reads = 0, posted = []\<rparr>"

subsection \<open>The rate limiter\<close>

text \<open>
  \<^verbatim>\<open>
  def check_rate_limit(client_id: str = "default") -> bool:
      now = time.time()
      rate_limiter[client_id] = [t for t in rate_limiter[client_id] if now - t < RATE_LIMIT_WINDOW]
      if len(rate_limiter[client_id]) >= RATE_LIMIT_MAX_REQUESTS:
          return False
      rate_limiter[client_id].append(now)
      return True
  \<close>
\<close>

definition prune :: "config \<Rightarrow> real \<Rightarrow> real list \<Rightarrow> real list" where
  "prune cfg now ts = filter (\<lambda>t. now - t < real_of_int (RATE_LIMIT_WINDOW cfg)) ts"

definition check_rate_limit :: "config \<Rightarrow> world \<Rightarrow> string \<Rightarrow> state \<Rightarrow> bool \<times> state" where
  "check_rate_limit cfg w client_id st =
     (let now = clock w (time_reads st);
          kept = prune cfg now (rate_limiter st client_id);
          st1 = st\<lparr>time_reads := Suc (time_reads st),
                   rate_limiter := (rate_limiter st)(client_id := kept)\<rparr>
      in if RATE_LIMIT_MAX_REQUESTS cfg \<le> int (length kept) then (False, st1)
         else (True, st1\<lparr>rate_limiter := (rate_limiter st)(client_id := kept @ [now])\<rparr>))"

text \<open>
  A sequence of calls, one client id per call, run from a state. \<open>admit_seq\<close> returns, in
  order, each call's client id, the time it read and its result.
\<close>

fun admit_seq :: "config \<Rightarrow> world \<Rightarrow> state \<Rightarrow> string list \<Rightarrow> (string \<times> real \<times> bool) list" where
  "admit_seq cfg w st [] = []"
| "admit_seq cfg w st (c # cs) =
     (let (ok, st') = check_rate_limit cfg w c st
      in (c, clock w (time_reads st), ok) # admit_seq cfg w st' cs)"

text \<open>The timestamps of the calls of client \<open>c\<close> that returned true.\<close>

definition admitted :: "string \<Rightarrow> (string \<times> real \<times> bool) list \<Rightarrow> real list" where
  "admitted c rs = map (\<lambda>r. fst (snd r)) (filter (\<lambda>r. fst r = c \<and> snd (snd r)) rs)"

subsection \<open>Token estimate\<close>

text \<open>\<^verbatim>\<open>def estimate_tokens(text): return len(text) // 4\<close>\<close>

definition estimate_tokens :: "string \<Rightarrow> int" where
  "estimate_tokens text = int (length text) div 4"

subsection \<open>Text\<close>

text \<open>
  A Python \<^verbatim>\<open>str\<close> is a \<^typ>\<open>string\<close>, one character per code point. The symbols
  outside ASCII that the module writes in front of its messages are named constants, each as
  long as the symbol has code points (so that \<^verbatim>\<open>len\<close> agrees): the warning sign is the two
  code points U+26A0 U+FE0F, the others are one code point each.
\<close>

definition nl :: char where
  "nl = CHR 0x0A"

definition warning_sign :: string where
  "warning_sign = [CHR 0x80, CHR 0x81]"

definition check_mark :: string where
  "check_mark = [CHR 0x82]"

definition cross_mark :: string where
  "cross_mark = [CHR 0x83]"

definition clipboard_sign :: string where
  "clipboard_sign = [CHR 0x84]"

definition memo_sign :: string where
  "memo_sign = [CHR 0x85]"

definition magnifier_sign :: string where
  "magnifier_sign = [CHR 0x86]"

definition broom_sign :: string where
  "broom_sign = [CHR 0x87]"

text \<open>\<^verbatim>\<open>str(n)\<close> for an integer: decimal digits, with a minus sign when negative.\<close>

fun digits :: "nat \<Rightarrow> string" where
  "digits n = (if n < 10 then [''0123456789'' ! n] else digits (n div 10) @ [''0123456789'' ! (n mod 10)])"

declare digits.simps [simp del]

definition str_int :: "int \<Rightarrow> string" where
  "str_int i = (if i < 0 then CHR ''-'' # digits (nat (- i)) else digits (nat i))"

text \<open>\<^verbatim>\<open>sep.join(xs)\<close>\<close>

fun join :: "string \<Rightarrow> string list \<Rightarrow> string" where
  "join sep [] = []"
| "join sep [x] = x"
| "join sep (x # y # ys) = x @ sep @ join sep (y # ys)"

subsection \<open>The completion gateway\<close>

definition rate_limit_exceeded :: string where
  "rate_limit_exceeded =
     warning_sign @ '' Rate limit exceeded. Please wait a moment before trying again.''"

text \<open>
  \<^verbatim>\<open>chat_completion(prompt, system_prompt, temperature, max_tokens, model_type)\<close>: the
  rate-limit check comes first, outside the \<^verbatim>\<open>try\<close>; then the messages are assembled and
  posted; every exception inside the \<^verbatim>\<open>try\<close> becomes the text
  \<^verbatim>\<open>Error generating completion: ...\<close>. The answer to the request is the backend's answer
  number \<open>length (posted st)\<close>. \<open>model_type\<close> is not used by the source either.
\<close>

definition chat_completion ::
  "config \<Rightarrow> world \<Rightarrow> string \<Rightarrow> string \<Rightarrow> real \<Rightarrow> int \<Rightarrow> string \<Rightarrow> state \<Rightarrow> string \<times> state" where
  "chat_completion cfg w prompt system_prompt temp maxtok model_type st =
     (let (ok, st1) = check_rate_limit cfg w ''default'' st
      in if \<not> ok then (rate_limit_exceeded, st1)
         else
          (let msgs = (if system_prompt \<noteq> [] then [(''system'', system_prompt)] else [])
                        @ [(''user'', prompt)];
               req = \<lparr>messages = msgs, temperature = temp, max_tokens = maxtok\<rparr>;
               reply = backend w (length (posted st1));
               st2 = st1\<lparr>posted := posted st1 @ [req]\<rparr>
           in case reply of
                Raises e \<Rightarrow> (''Error generating completion: '' @ e, st2)
              | Response status_code body \<Rightarrow>
                  if status_code \<noteq> 200
                  then (''Error: LM Studio at '' @ LMSTUDIO_HOST cfg @ '':'' @ LMSTUDIO_PORT cfg
                          @ '' returned status code '' @ str_int status_code, st2)
                  else (case body of
                          Malformed e \<Rightarrow> (''Error generating completion: '' @ e, st2)
                        | Choices [] \<Rightarrow> (''Error: No response generated'', st2)
                        | Choices (content # _) \<Rightarrow>
                            if content = [] then (''Error: Empty response from model'', st2)
                            else (content, st2))))"

subsection \<open>The context store\<close>

definition summarize_system_prompt :: string where
  "summarize_system_prompt =
     ''You are a helpful assistant that creates concise summaries. Summarize the following context, preserving key information.''"

definition analyze_system_prompt :: string where
  "analyze_system_prompt =
     ''You are an analytical assistant. Extract key points, entities, and actionable items from the context.''"

definition context_too_large :: "config \<Rightarrow> int \<Rightarrow> string" where
  "context_too_large cfg estimated_tokens =
     warning_sign @ '' Context too large ('' @ str_int estimated_tokens @ '' tokens). Maximum is ''
       @ str_int (MAX_CONTEXT_SIZE cfg) @ '' tokens.''"

definition context_stored :: "string \<Rightarrow> int \<Rightarrow> string" where
  "context_stored context_id estimated_tokens =
     check_mark @ '' Context stored successfully. ID: '' @ context_id @ '' (''
       @ str_int estimated_tokens @ '' tokens)''"

definition context_not_found :: "string \<Rightarrow> string" where
  "context_not_found context_id =
     cross_mark @ '' Context ID '' @ [CHR 0x27] @ context_id @ [CHR 0x27] @ '' not found.''"

definition context_retrieved :: "context_entry \<Rightarrow> string" where
  "context_retrieved ctx =
     clipboard_sign @ '' Context retrieved:'' @ [nl, nl] @ data ctx @ [nl, nl] @ ''(Stored: ''
       @ timestamp ctx @ '', '' @ str_int (tokens ctx) @ '' tokens)''"

definition unknown_operation :: "string \<Rightarrow> string" where
  "unknown_operation operation =
     cross_mark @ '' Unknown operation: '' @ operation @ ''. Use '' @ [CHR 0x27] @ ''store''
       @ [CHR 0x27] @ '', '' @ [CHR 0x27] @ ''retrieve'' @ [CHR 0x27] @ '', '' @ [CHR 0x27]
       @ ''summarize'' @ [CHR 0x27] @ '', or '' @ [CHR 0x27] @ ''analyze'' @ [CHR 0x27] @ ''.''"

text \<open>
  \<^verbatim>\<open>offload_context(context_id, context_data, operation)\<close>. The branches are the source's
  \<^verbatim>\<open>if/elif\<close> chain on the operation's name. Nothing inside the \<^verbatim>\<open>try\<close> raises:
  \<^verbatim>\<open>chat_completion\<close> catches its own exceptions and returns text.
\<close>

definition offload_context ::
  "config \<Rightarrow> world \<Rightarrow> string \<Rightarrow> string \<Rightarrow> string \<Rightarrow> state \<Rightarrow> string \<times> state" where
  "offload_context cfg w context_id context_data operation st =
     (if operation = ''store'' then
        (let estimated_tokens = estimate_tokens context_data
         in if estimated_tokens > MAX_CONTEXT_SIZE cfg
            then (context_too_large cfg estimated_tokens, st)
            else (context_stored context_id estimated_tokens,
                  st\<lparr>context_store :=
                        AList.update context_id
                          \<lparr>data = context_data, timestamp = isoformat w (iso_reads st),
                           tokens = estimated_tokens\<rparr> (context_store st),
                     iso_reads := Suc (iso_reads st)\<rparr>))
      else if operation = ''retrieve'' then
        (case map_of (context_store st) context_id of
           None \<Rightarrow> (context_not_found context_id, st)
         | Some ctx \<Rightarrow> (context_retrieved ctx, st))
      else if operation = ''summarize'' then
        (let (response, st1) =
               chat_completion cfg w (''Please summarize this context:'' @ [nl, nl] @ context_data)
                 summarize_system_prompt (3 / 10) 500 ''general'' st
         in (memo_sign @ '' Summary created:'' @ [nl, nl] @ response,
             st1\<lparr>context_store :=
                    AList.update (context_id @ ''_summary'')
                      \<lparr>data = response, timestamp = isoformat w (iso_reads st1),
                       tokens = estimate_tokens response\<rparr> (context_store st1),
                  iso_reads := Suc (iso_reads st1)\<rparr>))
      else if operation = ''analyze'' then
        (let (response, st1) =
               chat_completion cfg w
                 (''Analyze this context and extract key information:'' @ [nl, nl] @ context_data)
                 analyze_system_prompt (3 / 10) 800 ''general'' st
         in (magnifier_sign @ '' Analysis:'' @ [nl, nl] @ response, st1))
      else (unknown_operation operation, st))"

text \<open>
  \<^verbatim>\<open>clear_contexts(context_pattern)\<close>. \<^verbatim>\<open>context_pattern in k\<close> on strings is the
  substring test \<^const>\<open>sublist\<close>; \<^verbatim>\<open>del context_store[key]\<close> is \<^const>\<open>AList.delete\<close>.
\<close>

definition clear_contexts :: "string \<Rightarrow> state \<Rightarrow> string \<times> state" where
  "clear_contexts context_pattern st =
     (if context_pattern = ''*'' then
        (let count = length (context_store st)
         in (broom_sign @ '' Cleared all '' @ str_int (int count) @ '' stored contexts.'',
             st\<lparr>context_store := []\<rparr>))
      else
        (let matched_keys = filter (\<lambda>k. sublist context_pattern k) (map fst (context_store st))
         in (broom_sign @ '' Cleared '' @ str_int (int (length matched_keys))
               @ '' contexts matching '' @ [CHR 0x27] @ context_pattern @ [CHR 0x27] @ ''.'',
             st\<lparr>context_store := fold AList.delete matched_keys (context_store st)\<rparr>)))"

subsection \<open>Menial tasks\<close>

text \<open>The dictionary \<^verbatim>\<open>task_prompts\<close>, built from the output format.\<close>

definition task_prompts :: "string \<Rightarrow> string \<Rightarrow> string option" where
  "task_prompts output_format task_type =
     (if task_type = ''format'' then
        Some (''You are a formatting assistant. Format the following data as clean ''
                @ output_format @ ''. Be precise and consistent.'')
      else if task_type = ''extract'' then
        Some (''You are a data extraction assistant. Extract relevant information and present it as ''
                @ output_format @ ''.'')
      else if task_type = ''transform'' then
        Some (''You are a data transformation assistant. Transform the input according to common patterns and output as ''
                @ output_format @ ''.'')
      else if task_type = ''validate'' then
        Some ''You are a validation assistant. Check the data for errors, inconsistencies, or issues. Report findings clearly.''
      else if task_type = ''generate'' then
        Some (''You are a content generation assistant. Generate appropriate content based on the input, formatted as ''
                @ output_format @ ''.'')
      else None)"

text \<open>The dictionary \<^verbatim>\<open>format_hints\<close>.\<close>

definition format_hints :: "string \<Rightarrow> string option" where
  "format_hints output_format =
     (if output_format = ''json'' then Some ([nl, nl] @ ''Output valid JSON only.'')
      else if output_format = ''markdown'' then Some ([nl, nl] @ ''Use proper Markdown formatting.'')
      else if output_format = ''code'' then Some ([nl, nl] @ ''Output clean, properly formatted code.'')
      else if output_format = ''text'' then Some ([nl, nl] @ ''Output plain text.'')
      else None)"

text \<open>
  \<^verbatim>\<open>automate_menial_task(task_type, task_data, output_format)\<close>: its own rate-limit check,
  then the prompt of the task type, then one call of \<^verbatim>\<open>chat_completion\<close> (which checks the
  rate limit again).
\<close>

definition automate_menial_task ::
  "config \<Rightarrow> world \<Rightarrow> string \<Rightarrow> string \<Rightarrow> string \<Rightarrow> state \<Rightarrow> string \<times> state" where
  "automate_menial_task cfg w task_type task_data output_format st =
     (let (ok, st1) = check_rate_limit cfg w ''default'' st
      in if \<not> ok then (rate_limit_exceeded, st1)
         else
          (case task_prompts output_format task_type of
             None \<Rightarrow>
               (cross_mark @ '' Unknown task type: '' @ task_type
                  @ ''. Available types: format, extract, transform, validate, generate'', st1)
           | Some p \<Rightarrow>
               (let system_prompt =
                      (case format_hints output_format of None \<Rightarrow> p | Some h \<Rightarrow> p @ h)
                in chat_completion cfg w
                     (''Task: '' @ task_type @ [nl, nl] @ ''Data:'' @ [nl] @ task_data)
                     system_prompt (3 / 10) 2048 ''general'' st1)))"

subsection \<open>Batch dispatch\<close>

text \<open>
  \<^verbatim>\<open>range(start, stop, step)\<close> as the list of its values. The loop below starts at 0 with a
  stop that is not negative, so a negative step gives the empty range, as the last branch
  does; a step of 0 raises \<^verbatim>\<open>ValueError\<close> and is handled where the range is built.
\<close>

function py_range :: "int \<Rightarrow> int \<Rightarrow> int \<Rightarrow> int list" where
  "py_range i stop step = (if 0 < step \<and> i < stop then i # py_range (i + step) stop step else [])"
  by pat_completeness auto
termination
  by (relation "measure (\<lambda>(i, stop, step). nat (stop - i))") auto

declare py_range.simps [simp del]

text \<open>\<^verbatim>\<open>xs[lo:hi]\<close> for bounds that are not negative.\<close>

definition slice :: "'a list \<Rightarrow> int \<Rightarrow> int \<Rightarrow> 'a list" where
  "slice xs lo hi = take (nat (hi - lo)) (drop (nat lo) xs)"

text \<open>The prompt of one batch: a header and the items, numbered from 1.\<close>

definition batch_prompt :: "string \<Rightarrow> string list \<Rightarrow> string" where
  "batch_prompt operation batch =
     ''Process these '' @ str_int (int (length batch)) @ '' items with operation: '' @ operation
       @ [nl, nl]
       @ concat (map (\<lambda>(idx, item). str_int (int idx) @ ''. '' @ item @ [nl]) (enumerate 1 batch))"

definition batch_system_prompt :: string where
  "batch_system_prompt =
     ''You are a batch processing assistant. Process each item according to the specified operation. Be consistent across all items.''"

definition rate_limit_hit :: "int \<Rightarrow> int \<Rightarrow> string" where
  "rate_limit_hit batch_num i =
     warning_sign @ '' Rate limit hit at batch '' @ str_int batch_num @ ''. Processed ''
       @ str_int i @ '' items.''"

definition batch_result :: "int \<Rightarrow> int \<Rightarrow> string \<Rightarrow> string" where
  "batch_result batch_num total_batches response =
     ''**Batch '' @ str_int batch_num @ ''/'' @ str_int total_batches @ '':**'' @ [nl] @ response"

text \<open>
  The body of the \<^verbatim>\<open>for\<close> loop over the start indices that remain; \<open>results\<close> is the
  list built so far. \<^verbatim>\<open>break\<close> returns at once. The pacing \<^verbatim>\<open>asyncio.sleep(0.5)\<close>
  changes neither dictionary; the time it takes shows in the clock's next reading, which
  is arbitrary here.
\<close>

fun batch_loop ::
  "config \<Rightarrow> world \<Rightarrow> string list \<Rightarrow> string \<Rightarrow> int \<Rightarrow> int list \<Rightarrow> string list \<Rightarrow> state
     \<Rightarrow> string list \<times> state" where
  "batch_loop cfg w items operation batch_size [] results st = (results, st)"
| "batch_loop cfg w items operation batch_size (i # is) results st =
     (let total_items = int (length items);
          batch = slice items i (i + batch_size);
          batch_num = i div batch_size + 1;
          total_batches = (total_items + batch_size - 1) div batch_size;
          (ok, st1) = check_rate_limit cfg w ''default'' st
      in if \<not> ok then (results @ [rate_limit_hit batch_num i], st1)
         else
          (let (response, st2) =
                 chat_completion cfg w (batch_prompt operation batch) batch_system_prompt
                   (3 / 10) 1024 ''general'' st1
           in batch_loop cfg w items operation batch_size is
                (results @ [batch_result batch_num total_batches response]) st2))"

text \<open>
  What \<^verbatim>\<open>batch_process\<close> returns: a text, or the text that \<^verbatim>\<open>json.dumps\<close> makes of the
  dictionary with the keys \<^verbatim>\<open>total_items\<close>, \<^verbatim>\<open>processed_items\<close> and \<^verbatim>\<open>results\<close>,
  which is represented by the three values.
\<close>

datatype batch_output = Text string | Json_dumps int int "string list"

text \<open>
  \<^verbatim>\<open>batch_process(items, operation, batch_size, combine_results)\<close>. A batch size of 0 makes
  \<^verbatim>\<open>range\<close> raise, which the \<^verbatim>\<open>except\<close> turns into a text.
\<close>

definition batch_process ::
  "config \<Rightarrow> world \<Rightarrow> string list \<Rightarrow> string \<Rightarrow> int \<Rightarrow> bool \<Rightarrow> state \<Rightarrow> batch_output \<times> state" where
  "batch_process cfg w items operation batch_size combine_results st =
     (if items = [] then (Text (cross_mark @ '' No items provided for batch processing.''), st)
      else if batch_size = 0
      then (Text ''Error in batch processing: range() arg 3 must not be zero'', st)
      else
        (let total_items = int (length items);
             (results, st') =
               batch_loop cfg w items operation batch_size (py_range 0 total_items batch_size) [] st
         in if combine_results then (Text (join ([nl, nl] @ ''---'' @ [nl, nl]) results), st')
            else (Json_dumps total_items
                    (min (int (length results) * batch_size) total_items) results, st')))"

text \<open>The batches that the loop of \<^verbatim>\<open>batch_process\<close> cuts out of the items, in its order.\<close>

definition batches :: "'a list \<Rightarrow> int \<Rightarrow> 'a list list" where
  "batches items batch_size =
     map (\<lambda>i. slice items i (i + batch_size)) (py_range 0 (int (length items)) batch_size)"

subsection \<open>Environments for the examples\<close>

text \<open>A clock that advances one second per reading, and a backend that always answers.\<close>

definition ticking_world :: world where
  "ticking_world =
     \<lparr>clock = real, isoformat = (\<lambda>_. ''2025-01-01T00:00:00''),
      backend = (\<lambda>_. Response 200 (Choices [''done'']))\<rparr>"

definition small_config :: config where
  "small_config = default_config\<lparr>RATE_LIMIT_MAX_REQUESTS := 2\<rparr>"


definition three_contexts :: state where
  "three_contexts =
     initial_state\<lparr>context_store :=
       [(''proj1'', \<lparr>data = ''abcd'', timestamp = ''t1'', tokens = 1\<rparr>),
        (''other'', \<lparr>data = ''abcdefgh'', timestamp = ''t2'', tokens = 2\<rparr>),
        (''proj2'', \<lparr>data = [], timestamp = ''t3'', tokens = 0\<rparr>)]\<rparr>"

text \<open>The request that \<^verbatim>\<open>chat_completion\<close> posts for its arguments.\<close>

definition chat_request :: "string \<Rightarrow> string \<Rightarrow> real \<Rightarrow> int \<Rightarrow> request" where
  "chat_request prompt system_prompt temp maxtok =
     \<lparr>messages = (if system_prompt \<noteq> [] then [(''system'', system_prompt)] else [])
                    @ [(''user'', prompt)],
      temperature = temp, max_tokens = maxtok\<rparr>"

text \<open>
  A backend that refuses every connection; a state whose default window already holds two
  requests; a configuration with a small context limit and a backend with a long answer.
\<close>

definition failing_world :: world where
  "failing_world = ticking_world\<lparr>backend := (\<lambda>_. Raises ''Connection refused'')\<rparr>"

definition busy_state :: state where
  "busy_state = initial_state\<lparr>rate_limiter := (\<lambda>_. [])(''default'' := [0, 0])\<rparr>"

definition summary_config :: config where
  "summary_config = default_config\<lparr>MAX_CONTEXT_SIZE := 100\<rparr>"

definition verbose_world :: world where
  "verbose_world = ticking_world\<lparr>backend := (\<lambda>_. Response 200 (Choices [replicate 404 CHR ''a'']))\<rparr>"

text \<open>A configuration with an odd maximum.\<close>

definition odd_config :: config where
  "odd_config = default_config\<lparr>RATE_LIMIT_MAX_REQUESTS := 3\<rparr>"

text \<open>
  A maximum of one request, a clock that advances a whole window per reading, and a clock
  whose third reading is ahead of the fourth.
\<close>

definition boundary_config :: config where
  "boundary_config = default_config\<lparr>RATE_LIMIT_MAX_REQUESTS := 1\<rparr>"

definition minute_world :: world where
  "minute_world = ticking_world\<lparr>clock := (\<lambda>n. 60 * real n)\<rparr>"

definition backwards_world :: world where
  "backwards_world = ticking_world\<lparr>clock := (\<lambda>n. if n = 2 then 100 else real n)\<rparr>"

subsection \<open>The budget of the client default\<close>

text \<open>
  The state after \<open>n\<close> calls of \<^verbatim>\<open>check_rate_limit()\<close> in a row, and the part of a state
  that the rate limiter reads and writes: the windows and the number of clock readings.
\<close>

fun default_checks :: "config \<Rightarrow> world \<Rightarrow> nat \<Rightarrow> state \<Rightarrow> state" where
  "default_checks cfg w 0 st = st"
| "default_checks cfg w (Suc n) st =
     default_checks cfg w n (snd (check_rate_limit cfg w ''default'' st))"

definition limiter :: "state \<Rightarrow> (string \<Rightarrow> real list) \<times> nat" where
  "limiter st = (rate_limiter st, time_reads st)"

section \<open>Properties\<close>

subsection \<open>The rate limiter\<close>

lemma prune_prune:
  "now \<le> now' \<Longrightarrow> prune cfg now' (prune cfg now ts) = prune cfg now' ts"
  unfolding prune_def filter_filter by (rule filter_cong) auto

lemma prune_append: "prune cfg now (xs @ ys) = prune cfg now xs @ prune cfg now ys"
  by (simp add: prune_def)

lemma length_filter_imp:
  "(\<And>x. x \<in> set xs \<Longrightarrow> P x \<Longrightarrow> Q x) \<Longrightarrow> length (filter P xs) \<le> length (filter Q xs)"
  by (induction xs) auto

lemma check_time_reads:
  "time_reads (snd (check_rate_limit cfg w c st)) = Suc (time_reads st)"
  by (simp add: check_rate_limit_def Let_def)

lemma check_other:
  "c' \<noteq> c \<Longrightarrow> rate_limiter (snd (check_rate_limit cfg w c st)) c' = rate_limiter st c'"
  by (simp add: check_rate_limit_def Let_def)

lemma check_same:
  "rate_limiter (snd (check_rate_limit cfg w c st)) c =
     (if fst (check_rate_limit cfg w c st)
      then prune cfg (clock w (time_reads st)) (rate_limiter st c) @ [clock w (time_reads st)]
      else prune cfg (clock w (time_reads st)) (rate_limiter st c))"
  by (simp add: check_rate_limit_def Let_def)

lemma check_fst:
  "fst (check_rate_limit cfg w c st) \<longleftrightarrow>
     int (length (prune cfg (clock w (time_reads st)) (rate_limiter st c)))
       < RATE_LIMIT_MAX_REQUESTS cfg"
  by (auto simp add: check_rate_limit_def Let_def)

lemma check_posted: "posted (snd (check_rate_limit cfg w c st)) = posted st"
  by (simp add: check_rate_limit_def Let_def)

lemma check_context_store:
  "context_store (snd (check_rate_limit cfg w c st)) = context_store st"
  by (simp add: check_rate_limit_def Let_def)

lemma check_iso_reads: "iso_reads (snd (check_rate_limit cfg w c st)) = iso_reads st"
  by (simp add: check_rate_limit_def Let_def)

text \<open>
  The invariant of a run. \<open>past\<close> is the list of the timestamps admitted so far for the
  client: at every later time, what the window keeps of it is what the client's list keeps.
  \<open>P\<close> is any set of instants of which no two are a window or more apart.
\<close>

lemma admit_seq_window:
  assumes m: "mono (clock w)"
    and P: "\<And>t u. P t \<Longrightarrow> P u \<Longrightarrow> u - t < real_of_int (RATE_LIMIT_WINDOW cfg)"
  shows "(\<forall>now. clock w (time_reads st) \<le> now \<longrightarrow>
            prune cfg now (rate_limiter st c) = prune cfg now past)
     \<Longrightarrow> int (length (filter P past)) \<le> RATE_LIMIT_MAX_REQUESTS cfg
     \<Longrightarrow> int (length (filter P (past @ admitted c (admit_seq cfg w st cs))))
           \<le> RATE_LIMIT_MAX_REQUESTS cfg"
proof (induction cs arbitrary: st past)
  case Nil
  then show ?case by (simp add: admitted_def)
next
  case (Cons c' cs)
  let ?now = "clock w (time_reads st)"
  let ?st' = "snd (check_rate_limit cfg w c' st)"
  let ?ok = "fst (check_rate_limit cfg w c' st)"
  have later: "?now \<le> clock w (time_reads ?st')"
    using m by (simp add: check_time_reads mono_def)
  have unfold: "admitted c (admit_seq cfg w st (c' # cs)) =
      (if c' = c \<and> ?ok then [?now] else []) @ admitted c (admit_seq cfg w ?st' cs)"
    by (auto simp add: admitted_def split_beta)
  show ?case
  proof (cases "c' = c \<and> ?ok")
    case False
    have inv: "\<forall>now. clock w (time_reads ?st') \<le> now \<longrightarrow>
        prune cfg now (rate_limiter ?st' c) = prune cfg now past"
    proof (intro allI impI)
      fix now assume "clock w (time_reads ?st') \<le> now"
      with later have le: "?now \<le> now" by simp
      show "prune cfg now (rate_limiter ?st' c) = prune cfg now past"
      proof (cases "c' = c")
        case True
        with False have "rate_limiter ?st' c = prune cfg ?now (rate_limiter st c)"
          by (simp add: check_same)
        then show ?thesis using le Cons.prems(1) by (simp add: prune_prune)
      next
        case False
        then have "rate_limiter ?st' c = rate_limiter st c" by (simp add: check_other)
        then show ?thesis using le Cons.prems(1) by simp
      qed
    qed
    have "admitted c (admit_seq cfg w st (c' # cs)) = admitted c (admit_seq cfg w ?st' cs)"
      unfolding unfold using False by auto
    with Cons.IH [OF inv Cons.prems(2)] show ?thesis
      by (simp del: admit_seq.simps)
  next
    case True
    then have cc: "c' = c" and ok: "?ok" by blast+
    have rl: "rate_limiter ?st' c = prune cfg ?now (rate_limiter st c) @ [?now]"
      using cc ok by (simp add: check_same)
    have inv: "\<forall>now. clock w (time_reads ?st') \<le> now \<longrightarrow>
        prune cfg now (rate_limiter ?st' c) = prune cfg now (past @ [?now])"
    proof (intro allI impI)
      fix now assume "clock w (time_reads ?st') \<le> now"
      with later have le: "?now \<le> now" by simp
      then show "prune cfg now (rate_limiter ?st' c) = prune cfg now (past @ [?now])"
        using Cons.prems(1) by (simp add: rl prune_append prune_prune)
    qed
    have kept: "int (length (prune cfg ?now past)) < RATE_LIMIT_MAX_REQUESTS cfg"
      using ok cc Cons.prems(1) by (simp add: check_fst)
    have bound: "int (length (filter P (past @ [?now]))) \<le> RATE_LIMIT_MAX_REQUESTS cfg"
    proof (cases "P ?now")
      case False
      then show ?thesis using Cons.prems(2) by simp
    next
      case True
      have "length (filter P past) \<le> length (prune cfg ?now past)"
        unfolding prune_def using P [OF _ True] by (intro length_filter_imp) auto
      then show ?thesis using kept True by simp
    qed
    have "admitted c (admit_seq cfg w st (c' # cs)) = ?now # admitted c (admit_seq cfg w ?st' cs)"
      unfolding unfold using True by auto
    with Cons.IH [OF inv bound] show ?thesis
      by (simp del: admit_seq.simps)
  qed
qed

text \<open>
  Claim C1 as stated fails at the boundary. With a maximum of 1 and a window of 60 seconds,
  calls at the instants 0 and 60 both return true: the interval from 0 to 60, ends included,
  is 60 seconds long and holds two admissions. At the second call the timestamp 0 equals
  \<open>now - RATE_LIMIT_WINDOW\<close>, so it is not older than that, and yet it is pruned: the code
  keeps a timestamp only while \<open>now - t < RATE_LIMIT_WINDOW\<close>.
\<close>

theorem sliding_window_boundary_counterexample:
  "admit_seq boundary_config minute_world initial_state [''a'', ''a'']
     = [(''a'', 0, True), (''a'', 60, True)]
   \<and> RATE_LIMIT_MAX_REQUESTS boundary_config
       < int (length (filter (\<lambda>t. 0 \<le> t \<and> t \<le> 0 + real_of_int (RATE_LIMIT_WINDOW boundary_config))
                        (admitted ''a'' (admit_seq boundary_config minute_world initial_state
                           [''a'', ''a'']))))
   \<and> prune boundary_config 60 [0] = []
   \<and> \<not> (0 :: real) < 60 - real_of_int (RATE_LIMIT_WINDOW boundary_config)"
  by (simp add: boundary_config_def default_config_def minute_world_def ticking_world_def
        initial_state_def check_rate_limit_def prune_def Let_def admitted_def)

text \<open>
  The bound also needs a clock that does not go back: with readings 0, 1, 100, 3 and a
  maximum of 2, the reading 100 empties the window and the call at 3 is a third admission
  between 0 and 60.
\<close>

lemma sliding_window_backwards_clock:
  "\<not> mono (clock backwards_world)
   \<and> admit_seq small_config backwards_world initial_state [''a'', ''a'', ''a'', ''a'']
       = [(''a'', 0, True), (''a'', 1, True), (''a'', 100, True), (''a'', 3, True)]
   \<and> RATE_LIMIT_MAX_REQUESTS small_config
       < int (length (filter (\<lambda>t. 0 \<le> t \<and> t < 0 + real_of_int (RATE_LIMIT_WINDOW small_config))
                        (admitted ''a'' (admit_seq small_config backwards_world initial_state
                           [''a'', ''a'', ''a'', ''a'']))))"
proof -
  have m: "\<not> mono (clock backwards_world)"
  proof
    assume "mono (clock backwards_world)"
    then have "clock backwards_world 2 \<le> clock backwards_world 3"
      by (rule monoD) simp
    then show False
      by (simp add: backwards_world_def ticking_world_def)
  qed
  have e: "admit_seq small_config backwards_world initial_state [''a'', ''a'', ''a'', ''a'']
       = [(''a'', 0, True), (''a'', 1, True), (''a'', 100, True), (''a'', 3, True)]"
    by (simp add: small_config_def default_config_def backwards_world_def ticking_world_def
        initial_state_def check_rate_limit_def prune_def Let_def)
  show ?thesis
    unfolding e using m by (simp add: admitted_def small_config_def default_config_def)
qed

text \<open>
  Claim C1, amended: the windows are half-open and the pruning is strict.
  Let the readings of the clock never decrease and let the maximum be at least 0.
  Run any sequence of calls of \<open>check_rate_limit\<close>, for any client ids, from the state in
  which the module starts. Then for every client and every instant \<open>s\<close>, the calls of that
  client that returned true with a timestamp in the window \<open>[s, s + RATE_LIMIT_WINDOW)\<close>,
  or in the window \<open>(s, s + RATE_LIMIT_WINDOW]\<close>, are at most \<open>RATE_LIMIT_MAX_REQUESTS\<close>.
  One call keeps of the client's list the timestamps \<open>t\<close> with
  \<open>now - t < RATE_LIMIT_WINDOW\<close>, returns false and records nothing when at least
  \<open>RATE_LIMIT_MAX_REQUESTS\<close> remain, and otherwise appends \<open>now\<close> and returns true.
\<close>

theorem check_rate_limit_sliding_window:
  assumes "mono (clock w)" and "0 \<le> RATE_LIMIT_MAX_REQUESTS cfg"
  shows "int (length (filter (\<lambda>t. s \<le> t \<and> t < s + real_of_int (RATE_LIMIT_WINDOW cfg))
                        (admitted c (admit_seq cfg w initial_state cs))))
           \<le> RATE_LIMIT_MAX_REQUESTS cfg
       \<and> int (length (filter (\<lambda>t. s < t \<and> t \<le> s + real_of_int (RATE_LIMIT_WINDOW cfg))
                        (admitted c (admit_seq cfg w initial_state cs))))
           \<le> RATE_LIMIT_MAX_REQUESTS cfg
       \<and> check_rate_limit cfg w c st =
           (let now = clock w (time_reads st);
                kept = filter (\<lambda>t. now - t < real_of_int (RATE_LIMIT_WINDOW cfg))
                         (rate_limiter st c)
            in if RATE_LIMIT_MAX_REQUESTS cfg \<le> int (length kept)
               then (False, st\<lparr>time_reads := Suc (time_reads st),
                               rate_limiter := (rate_limiter st)(c := kept)\<rparr>)
               else (True, st\<lparr>time_reads := Suc (time_reads st),
                              rate_limiter := (rate_limiter st)(c := kept @ [now])\<rparr>))"
proof -
  have start: "\<forall>now. clock w (time_reads initial_state) \<le> now \<longrightarrow>
      prune cfg now (rate_limiter initial_state c) = prune cfg now []"
    by (simp add: initial_state_def)
  have empty: "int (length (filter P ([] :: real list))) \<le> RATE_LIMIT_MAX_REQUESTS cfg" for P
    using assms(2) by simp
  have a: "int (length (filter (\<lambda>t. s \<le> t \<and> t < s + real_of_int (RATE_LIMIT_WINDOW cfg))
                        (admitted c (admit_seq cfg w initial_state cs))))
           \<le> RATE_LIMIT_MAX_REQUESTS cfg"
    using admit_seq_window [OF assms(1) _ start empty,
        where P = "\<lambda>t. s \<le> t \<and> t < s + real_of_int (RATE_LIMIT_WINDOW cfg)" and cs = cs]
    by simp
  have b: "int (length (filter (\<lambda>t. s < t \<and> t \<le> s + real_of_int (RATE_LIMIT_WINDOW cfg))
                        (admitted c (admit_seq cfg w initial_state cs))))
           \<le> RATE_LIMIT_MAX_REQUESTS cfg"
    using admit_seq_window [OF assms(1) _ start empty,
        where P = "\<lambda>t. s < t \<and> t \<le> s + real_of_int (RATE_LIMIT_WINDOW cfg)" and cs = cs]
    by simp
  have c: "check_rate_limit cfg w c st =
           (let now = clock w (time_reads st);
                kept = filter (\<lambda>t. now - t < real_of_int (RATE_LIMIT_WINDOW cfg))
                         (rate_limiter st c)
            in if RATE_LIMIT_MAX_REQUESTS cfg \<le> int (length kept)
               then (False, st\<lparr>time_reads := Suc (time_reads st),
                               rate_limiter := (rate_limiter st)(c := kept)\<rparr>)
               else (True, st\<lparr>time_reads := Suc (time_reads st),
                              rate_limiter := (rate_limiter st)(c := kept @ [now])\<rparr>))"
    by (simp add: check_rate_limit_def prune_def Let_def)
  from a b c show ?thesis by blast
qed

lemma admit_seq_example:
  "admit_seq small_config ticking_world initial_state [''a'', ''b'', ''a'', ''a'', ''b'']
     = [(''a'', 0, True), (''b'', 1, True), (''a'', 2, True), (''a'', 3, False), (''b'', 4, True)]"
  by (simp add: small_config_def default_config_def ticking_world_def initial_state_def
        check_rate_limit_def prune_def Let_def)

theorem check_rate_limit_sliding_window_witness:
  "mono (clock ticking_world) \<and> 0 \<le> RATE_LIMIT_MAX_REQUESTS small_config
   \<and> admitted ''a'' (admit_seq small_config ticking_world initial_state
                       [''a'', ''b'', ''a'', ''a'', ''b'']) = [0, 2]
   \<and> int (length (filter (\<lambda>t. 0 \<le> t \<and> t < 0 + real_of_int (RATE_LIMIT_WINDOW small_config))
                    (admitted ''a'' (admit_seq small_config ticking_world initial_state
                       [''a'', ''b'', ''a'', ''a'', ''b''])))) \<le> RATE_LIMIT_MAX_REQUESTS small_config"
proof -
  have m: "mono (clock ticking_world)"
    by (simp add: ticking_world_def mono_def)
  have p: "0 \<le> RATE_LIMIT_MAX_REQUESTS small_config"
    by (simp add: small_config_def)
  have e: "admitted ''a'' (admit_seq small_config ticking_world initial_state
                       [''a'', ''b'', ''a'', ''a'', ''b'']) = [0, 2]"
    unfolding admit_seq_example by (simp add: admitted_def)
  from check_rate_limit_sliding_window [OF m p, THEN conjunct1,
      of 0 "''a''" "[''a'', ''b'', ''a'', ''a'', ''b'']"] m p e
  show ?thesis by blast
qed

subsection \<open>The context store\<close>

lemma str_int_2: "str_int 2 = ''2''" by (simp add: str_int_def digits.simps)
lemma str_int_3: "str_int 3 = ''3''" by (simp add: str_int_def digits.simps)



text \<open>
  Claim C9. When the estimate of the data is at most \<open>MAX_CONTEXT_SIZE\<close>, a store
  followed at once by a retrieve of the same id returns the text that holds exactly the data
  stored and the token count that the store reported, and the retrieve changes nothing.
\<close>

theorem store_retrieve_round_trip:
  assumes "estimate_tokens context_data \<le> MAX_CONTEXT_SIZE cfg"
  shows "fst (offload_context cfg w context_id context_data ''store'' st)
           = context_stored context_id (estimate_tokens context_data)
       \<and> map_of (context_store (snd (offload_context cfg w context_id context_data ''store'' st)))
           context_id
           = Some \<lparr>data = context_data, timestamp = isoformat w (iso_reads st),
                   tokens = estimate_tokens context_data\<rparr>
       \<and> offload_context cfg w context_id other_data ''retrieve''
             (snd (offload_context cfg w context_id context_data ''store'' st))
           = (clipboard_sign @ '' Context retrieved:'' @ [nl, nl] @ context_data @ [nl, nl]
                @ ''(Stored: '' @ isoformat w (iso_reads st) @ '', ''
                @ str_int (estimate_tokens context_data) @ '' tokens)'',
              snd (offload_context cfg w context_id context_data ''store'' st))"
  using assms
  by (simp add: offload_context_def Let_def update_conv' context_retrieved_def)

theorem store_retrieve_round_trip_witness:
  "estimate_tokens ''hello world'' \<le> MAX_CONTEXT_SIZE default_config
   \<and> fst (offload_context default_config ticking_world ''proj1'' [] ''retrieve''
          (snd (offload_context default_config ticking_world ''proj1'' ''hello world'' ''store''
                  initial_state)))
       = clipboard_sign @ '' Context retrieved:'' @ [nl, nl] @ ''hello world'' @ [nl, nl]
           @ ''(Stored: 2025-01-01T00:00:00, 2 tokens)''"
proof -
  have h: "estimate_tokens ''hello world'' \<le> MAX_CONTEXT_SIZE default_config"
    by (simp add: estimate_tokens_def default_config_def)
  have e: "estimate_tokens ''hello world'' = 2"
    by (simp add: estimate_tokens_def)
  have i: "isoformat ticking_world (iso_reads initial_state) = ''2025-01-01T00:00:00''"
    by (simp add: ticking_world_def)
  from store_retrieve_round_trip [OF h, THEN conjunct2, THEN conjunct2,
      of ticking_world "''proj1''" "[]" initial_state]
  show ?thesis using h
    by (simp add: e i str_int_2)
qed

lemma fold_delete: "fold AList.delete ks al = filter (\<lambda>(k, v). k \<notin> set ks) al"
proof (induction ks arbitrary: al)
  case Nil
  then show ?case by simp
next
  case (Cons k ks)
  have "filter (\<lambda>(k', v). k' \<notin> set ks) (AList.delete k al)
          = filter (\<lambda>(k', v). k' \<notin> set (k # ks)) al"
    unfolding AList.delete_eq filter_filter by (rule filter_cong) auto
  with Cons show ?case by simp
qed

lemma clear_matched:
  "fold AList.delete (filter P (map fst al)) al = filter (\<lambda>(k, v). \<not> P k) al"
  unfolding fold_delete by (rule filter_cong) (auto simp: image_iff)

lemma filter_fst: "filter (P \<circ> fst) al = filter (\<lambda>(k, v). P k) al"
  by (rule filter_cong) auto

text \<open>
  Claim C8. Clearing with the pattern \<open>*\<close> empties the store and reports the number of
  entries it held. Clearing with any other pattern \<open>p\<close> removes exactly the entries whose id
  has \<open>p\<close> as a substring, reports their number, and leaves every other entry as it was, in
  its place.
\<close>

theorem clear_contexts_removes:
  "clear_contexts ''*'' st =
     (broom_sign @ '' Cleared all '' @ str_int (int (length (context_store st)))
        @ '' stored contexts.'', st\<lparr>context_store := []\<rparr>)
   \<and> (p \<noteq> ''*'' \<longrightarrow>
        clear_contexts p st =
          (broom_sign @ '' Cleared ''
             @ str_int (int (length (filter (\<lambda>(k, v). sublist p k) (context_store st))))
             @ '' contexts matching '' @ [CHR 0x27] @ p @ [CHR 0x27] @ ''.'',
           st\<lparr>context_store := filter (\<lambda>(k, v). \<not> sublist p k) (context_store st)\<rparr>)
        \<and> length (context_store st)
            = length (filter (\<lambda>(k, v). sublist p k) (context_store st))
              + length (context_store (snd (clear_contexts p st)))
        \<and> (\<forall>k. map_of (context_store (snd (clear_contexts p st))) k
                 = (if sublist p k then None else map_of (context_store st) k)))"
proof -
  have 1: "clear_contexts ''*'' st =
     (broom_sign @ '' Cleared all '' @ str_int (int (length (context_store st)))
        @ '' stored contexts.'', st\<lparr>context_store := []\<rparr>)"
    by (simp add: clear_contexts_def)
  have 2: "clear_contexts p st =
          (broom_sign @ '' Cleared ''
             @ str_int (int (length (filter (\<lambda>(k, v). sublist p k) (context_store st))))
             @ '' contexts matching '' @ [CHR 0x27] @ p @ [CHR 0x27] @ ''.'',
           st\<lparr>context_store := filter (\<lambda>(k, v). \<not> sublist p k) (context_store st)\<rparr>)"
    if "p \<noteq> ''*''"
    using that by (simp add: clear_contexts_def Let_def clear_matched filter_fst)
  have 3: "length (al :: (string \<times> context_entry) list)
      = length (filter (\<lambda>(k, v). sublist p k) al) + length (filter (\<lambda>(k, v). \<not> sublist p k) al)" for al
    by (induction al) auto
  have 4: "map_of (filter (\<lambda>(k, v). \<not> sublist p k) al) k
      = (if sublist p k then None else map_of al k)" for al :: "(string \<times> context_entry) list" and k
    by (induction al) auto
  show ?thesis using 1 2 3 [of "context_store st"] 4 [of "context_store st"]
    by simp
qed

theorem clear_contexts_removes_witness:
  "''proj'' \<noteq> ''*''
   \<and> clear_contexts ''proj'' three_contexts =
       (broom_sign @ '' Cleared 2 contexts matching '' @ [CHR 0x27] @ ''proj'' @ [CHR 0x27] @ ''.'',
        three_contexts\<lparr>context_store :=
          [(''other'', \<lparr>data = ''abcdefgh'', timestamp = ''t2'', tokens = 2\<rparr>)]\<rparr>)
   \<and> clear_contexts ''*'' three_contexts =
       (broom_sign @ '' Cleared all 3 stored contexts.'', three_contexts\<lparr>context_store := []\<rparr>)"
proof -
  have n: "''proj'' \<noteq> ''*''" by simp
  from clear_contexts_removes [of three_contexts "''proj''"] n
  show ?thesis
    by (simp add: three_contexts_def str_int_2 str_int_3 sublist_code prefix_code)
qed

subsection \<open>The completion gateway\<close>

lemma chat_denied:
  "\<not> fst (check_rate_limit cfg w ''default'' st) \<Longrightarrow>
     chat_completion cfg w prompt sp temp mt mtype st
       = (rate_limit_exceeded, snd (check_rate_limit cfg w ''default'' st))"
  by (simp add: chat_completion_def split_beta)

lemma chat_state:
  "snd (chat_completion cfg w prompt sp temp mt mtype st) =
     (if fst (check_rate_limit cfg w ''default'' st)
      then (snd (check_rate_limit cfg w ''default'' st))
             \<lparr>posted := posted st @ [chat_request prompt sp temp mt]\<rparr>
      else snd (check_rate_limit cfg w ''default'' st))"
  by (simp add: chat_completion_def split_beta Let_def chat_request_def check_posted
      split: backend_reply.splits payload.splits list.splits)

lemma chat_rate_limiter:
  "rate_limiter (snd (chat_completion cfg w prompt sp temp mt mtype st))
     = rate_limiter (snd (check_rate_limit cfg w ''default'' st))"
  by (simp add: chat_state)

lemma chat_context_store:
  "context_store (snd (chat_completion cfg w prompt sp temp mt mtype st)) = context_store st"
  by (simp add: chat_state check_context_store)

lemma chat_iso_reads:
  "iso_reads (snd (chat_completion cfg w prompt sp temp mt mtype st)) = iso_reads st"
  by (simp add: chat_state check_iso_reads)

lemma chat_time_reads:
  "time_reads (snd (chat_completion cfg w prompt sp temp mt mtype st)) = Suc (time_reads st)"
  by (simp add: chat_state check_time_reads)

lemma chat_posted:
  "posted (snd (chat_completion cfg w prompt sp temp mt mtype st)) =
     posted st @ (if fst (check_rate_limit cfg w ''default'' st)
                  then [chat_request prompt sp temp mt] else [])"
  by (simp add: chat_state check_posted)

lemma chat_raises:
  "fst (check_rate_limit cfg w ''default'' st) \<Longrightarrow> backend w (length (posted st)) = Raises e \<Longrightarrow>
     fst (chat_completion cfg w prompt sp temp mt mtype st) = ''Error generating completion: '' @ e"
  by (simp add: chat_completion_def split_beta Let_def check_posted)

text \<open>
  Claim C6. \<open>chat_completion\<close> consults the rate limiter, for the client \<open>default\<close>, before
  anything else. When admission is denied it returns the rate-limit text and posts no request:
  the log of requests is unchanged. When admission is granted, exactly one timestamp is appended
  to the pruned window and exactly one request is posted, whatever the backend answers; in
  particular the record stays when the request raises or returns a status other than 200,
  in which case the call returns the corresponding error text.
\<close>

theorem chat_completion_admission:
  "(\<not> fst (check_rate_limit cfg w ''default'' st) \<longrightarrow>
       chat_completion cfg w prompt sp temp mt mtype st
         = (rate_limit_exceeded, snd (check_rate_limit cfg w ''default'' st))
     \<and> posted (snd (chat_completion cfg w prompt sp temp mt mtype st)) = posted st
     \<and> rate_limiter (snd (chat_completion cfg w prompt sp temp mt mtype st)) ''default''
         = prune cfg (clock w (time_reads st)) (rate_limiter st ''default''))
   \<and> (fst (check_rate_limit cfg w ''default'' st) \<longrightarrow>
       posted (snd (chat_completion cfg w prompt sp temp mt mtype st))
         = posted st @ [chat_request prompt sp temp mt]
     \<and> rate_limiter (snd (chat_completion cfg w prompt sp temp mt mtype st)) ''default''
         = prune cfg (clock w (time_reads st)) (rate_limiter st ''default'')
             @ [clock w (time_reads st)]
     \<and> (\<forall>e. backend w (length (posted st)) = Raises e \<longrightarrow>
           fst (chat_completion cfg w prompt sp temp mt mtype st)
             = ''Error generating completion: '' @ e)
     \<and> (\<forall>code body. backend w (length (posted st)) = Response code body \<longrightarrow> code \<noteq> 200 \<longrightarrow>
           fst (chat_completion cfg w prompt sp temp mt mtype st)
             = ''Error: LM Studio at '' @ LMSTUDIO_HOST cfg @ '':'' @ LMSTUDIO_PORT cfg
                 @ '' returned status code '' @ str_int code))
   \<and> time_reads (snd (chat_completion cfg w prompt sp temp mt mtype st)) = Suc (time_reads st)"
proof -
  have bad: "fst (chat_completion cfg w prompt sp temp mt mtype st)
             = ''Error: LM Studio at '' @ LMSTUDIO_HOST cfg @ '':'' @ LMSTUDIO_PORT cfg
                 @ '' returned status code '' @ str_int code"
    if "fst (check_rate_limit cfg w ''default'' st)"
      and "backend w (length (posted st)) = Response code body" and "code \<noteq> 200" for code body
    using that by (simp add: chat_completion_def split_beta Let_def check_posted)
  show ?thesis
    using bad
    by (auto simp add: chat_denied chat_posted chat_rate_limiter check_same chat_time_reads
        chat_raises check_posted)
qed

theorem chat_completion_admission_witness:
  "fst (check_rate_limit small_config failing_world ''default'' initial_state)
   \<and> backend failing_world (length (posted initial_state)) = Raises ''Connection refused''
   \<and> fst (chat_completion small_config failing_world ''hi'' [] (7 / 10) 1024 ''general''
            initial_state) = ''Error generating completion: Connection refused''
   \<and> rate_limiter (snd (chat_completion small_config failing_world ''hi'' [] (7 / 10) 1024
        ''general'' initial_state)) ''default'' = [0]
   \<and> \<not> fst (check_rate_limit small_config failing_world ''default'' busy_state)
   \<and> fst (chat_completion small_config failing_world ''hi'' [] (7 / 10) 1024 ''general''
            busy_state) = rate_limit_exceeded
   \<and> posted (snd (chat_completion small_config failing_world ''hi'' [] (7 / 10) 1024
        ''general'' busy_state)) = []"
proof -
  have ok: "fst (check_rate_limit small_config failing_world ''default'' initial_state)"
    by (simp add: check_fst prune_def initial_state_def small_config_def default_config_def)
  have r: "backend failing_world (length (posted initial_state)) = Raises ''Connection refused''"
    by (simp add: failing_world_def)
  have no: "\<not> fst (check_rate_limit small_config failing_world ''default'' busy_state)"
    by (simp add: check_fst prune_def busy_state_def initial_state_def small_config_def
        default_config_def failing_world_def ticking_world_def)
  have p: "prune small_config (clock failing_world (time_reads initial_state))
             (rate_limiter initial_state ''default'') @ [clock failing_world (time_reads initial_state)]
           = [0]"
    by (simp add: prune_def initial_state_def failing_world_def ticking_world_def)
  have q: "posted busy_state = []"
    by (simp add: busy_state_def initial_state_def)
  note a = chat_completion_admission [of small_config failing_world initial_state
      "''hi''" "[]" "7 / 10" 1024 "''general''"]
  note b = chat_completion_admission [of small_config failing_world busy_state
      "''hi''" "[]" "7 / 10" 1024 "''general''"]
  from a ok r p have 1: "fst (chat_completion small_config failing_world ''hi'' [] (7 / 10) 1024
       ''general'' initial_state) = ''Error generating completion: Connection refused''"
    and 2: "rate_limiter (snd (chat_completion small_config failing_world ''hi'' [] (7 / 10) 1024
        ''general'' initial_state)) ''default'' = [0]"
    by simp_all
  from b no q have 3: "fst (chat_completion small_config failing_world ''hi'' [] (7 / 10) 1024
       ''general'' busy_state) = rate_limit_exceeded"
    and 4: "posted (snd (chat_completion small_config failing_world ''hi'' [] (7 / 10) 1024
        ''general'' busy_state)) = []"
    by (simp_all add: check_posted)
  from ok r no 1 2 3 4 show ?thesis by blast
qed

subsection \<open>One client id for every check\<close>

lemma automate_other:
  "c \<noteq> ''default'' \<Longrightarrow>
     rate_limiter (snd (automate_menial_task cfg w task_type task_data output_format st)) c
       = rate_limiter st c"
  by (simp add: automate_menial_task_def split_beta Let_def chat_rate_limiter check_other
      split: option.splits)

lemma automate_denied:
  "\<not> fst (check_rate_limit cfg w ''default'' st) \<Longrightarrow>
     fst (automate_menial_task cfg w task_type task_data output_format st) = rate_limit_exceeded"
  by (simp add: automate_menial_task_def split_beta)

lemma batch_loop_other:
  "c \<noteq> ''default'' \<Longrightarrow>
     rate_limiter (snd (batch_loop cfg w items operation batch_size idxs results st)) c
       = rate_limiter st c"
  by (induction idxs arbitrary: results st)
     (simp_all add: split_beta Let_def chat_rate_limiter check_other)

lemma batch_process_other:
  "c \<noteq> ''default'' \<Longrightarrow>
     rate_limiter (snd (batch_process cfg w items operation batch_size combine st)) c
       = rate_limiter st c"
  by (simp add: batch_process_def split_beta Let_def batch_loop_other)

lemma batch_process_denied:
  assumes "\<not> fst (check_rate_limit cfg w ''default'' st)" and "items \<noteq> []" and "0 < batch_size"
  shows "fst (batch_process cfg w items operation batch_size combine st) =
           (if combine then Text (rate_limit_hit 1 0)
            else Json_dumps (int (length items)) (min batch_size (int (length items)))
                   [rate_limit_hit 1 0])"
proof -
  have "py_range 0 (int (length items)) batch_size
          = 0 # py_range batch_size (int (length items)) batch_size"
    using assms(2,3) by (subst py_range.simps) simp
  then show ?thesis
    using assms by (simp add: batch_process_def split_beta Let_def)
qed

lemma check_limiter:
  "limiter st = limiter st' \<Longrightarrow>
     fst (check_rate_limit cfg w c st) = fst (check_rate_limit cfg w c st')
     \<and> limiter (snd (check_rate_limit cfg w c st)) = limiter (snd (check_rate_limit cfg w c st'))"
  by (simp add: limiter_def check_rate_limit_def Let_def)

lemma default_checks_limiter:
  "limiter st = limiter st' \<Longrightarrow>
     limiter (default_checks cfg w n st) = limiter (default_checks cfg w n st')"
proof (induction n arbitrary: st st')
  case 0
  then show ?case by simp
next
  case (Suc n)
  from check_limiter [OF Suc.prems]
  have "limiter (snd (check_rate_limit cfg w ''default'' st))
          = limiter (snd (check_rate_limit cfg w ''default'' st'))"
    by (rule conjunct2)
  then show ?case
    unfolding default_checks.simps by (rule Suc.IH)
qed

lemma default_checks_add:
  "default_checks cfg w (m + n) st = default_checks cfg w n (default_checks cfg w m st)"
  by (induction m arbitrary: st) simp_all

lemma default_checks_time:
  "time_reads (default_checks cfg w n st) = time_reads st + n"
  by (induction n arbitrary: st) (simp_all add: check_time_reads)

lemma default_checks_other:
  "c \<noteq> ''default'' \<Longrightarrow> rate_limiter (default_checks cfg w n st) c = rate_limiter st c"
  by (induction n arbitrary: st) (simp_all add: check_other)

lemma chat_limiter:
  "limiter (snd (chat_completion cfg w prompt sp temp mt mtype st))
     = limiter (default_checks cfg w 1 st)"
  by (simp add: limiter_def chat_state)

lemma automate_limiter:
  "limiter (snd (automate_menial_task cfg w task_type task_data output_format st))
     = limiter (default_checks cfg w
         (if fst (check_rate_limit cfg w ''default'' st)
               \<and> task_prompts output_format task_type \<noteq> None then 2 else 1) st)"
proof -
  let ?c = "check_rate_limit cfg w ''default'' st"
  have two: "default_checks cfg w 2 st = snd (check_rate_limit cfg w ''default'' (snd ?c))"
    by (simp add: numeral_2_eq_2)
  have one: "default_checks cfg w 1 st = snd ?c"
    by simp
  show ?thesis
  proof (cases "fst ?c")
    case False
    then show ?thesis
      by (simp add: automate_menial_task_def split_beta one del: One_nat_def)
  next
    case True
    show ?thesis
    proof (cases "task_prompts output_format task_type")
      case None
      then show ?thesis
        using True by (simp add: automate_menial_task_def split_beta one del: One_nat_def)
    next
      case (Some p)
      then show ?thesis
        using True
        by (simp add: automate_menial_task_def split_beta Let_def two limiter_def
            chat_rate_limiter chat_time_reads check_time_reads)
    qed
  qed
qed

lemma check_admits:
  "int (length (rate_limiter st c)) < RATE_LIMIT_MAX_REQUESTS cfg \<Longrightarrow>
     fst (check_rate_limit cfg w c st)"
proof -
  assume a: "int (length (rate_limiter st c)) < RATE_LIMIT_MAX_REQUESTS cfg"
  have "length (prune cfg (clock w (time_reads st)) (rate_limiter st c))
          \<le> length (rate_limiter st c)"
    unfolding prune_def by (rule length_filter_le)
  with a show ?thesis
    unfolding check_fst by linarith
qed

lemma check_length:
  "length (rate_limiter (snd (check_rate_limit cfg w c st)) c) \<le> Suc (length (rate_limiter st c))"
proof -
  have "length (prune cfg (clock w (time_reads st)) (rate_limiter st c))
          \<le> length (rate_limiter st c)"
    unfolding prune_def by (rule length_filter_le)
  then show ?thesis
    unfolding check_same by simp
qed

lemma batch_loop_denied:
  "\<not> fst (check_rate_limit cfg w ''default'' st) \<Longrightarrow>
     batch_loop cfg w items operation batch_size (i # idxs) results st
       = (results @ [rate_limit_hit (i div batch_size + 1) i],
          snd (check_rate_limit cfg w ''default'' st))"
  by (simp add: split_beta Let_def)

lemma batch_loop_admitted:
  "fst (check_rate_limit cfg w ''default'' st) \<Longrightarrow>
     batch_loop cfg w items operation batch_size (i # idxs) results st
       = batch_loop cfg w items operation batch_size idxs
           (results @ [batch_result (i div batch_size + 1)
                         ((int (length items) + batch_size - 1) div batch_size)
                         (fst (chat_completion cfg w
                                 (batch_prompt operation (slice items i (i + batch_size)))
                                 batch_system_prompt (3 / 10) 1024 ''general''
                                 (snd (check_rate_limit cfg w ''default'' st))))])
           (snd (chat_completion cfg w
                   (batch_prompt operation (slice items i (i + batch_size)))
                   batch_system_prompt (3 / 10) 1024 ''general''
                   (snd (check_rate_limit cfg w ''default'' st))))"
  by (simp add: split_beta Let_def)

lemma batch_loop_limiter:
  "\<exists>n. (idxs \<noteq> [] \<longrightarrow> 1 \<le> n) \<and> n \<le> 2 * length idxs
       \<and> limiter (snd (batch_loop cfg w items operation batch_size idxs results st))
           = limiter (default_checks cfg w n st)"
proof (induction idxs arbitrary: results st)
  case Nil
  have "limiter (snd (batch_loop cfg w items operation batch_size [] results st))
          = limiter (default_checks cfg w 0 st)"
    by simp
  then show ?case by blast
next
  case (Cons i idxs)
  let ?c = "check_rate_limit cfg w ''default'' st"
  show ?case
  proof (cases "fst ?c")
    case False
    have "limiter (snd (batch_loop cfg w items operation batch_size (i # idxs) results st))
            = limiter (default_checks cfg w (Suc 0) st)"
      unfolding batch_loop_denied [OF False] by simp
    moreover have "Suc 0 \<le> 2 * length (i # idxs)" by simp
    ultimately show ?thesis by (intro exI [of _ "Suc 0"]) simp
  next
    case True
    let ?ch = "chat_completion cfg w (batch_prompt operation (slice items i (i + batch_size)))
                 batch_system_prompt (3 / 10) 1024 ''general'' (snd ?c)"
    let ?r = "results @ [batch_result (i div batch_size + 1)
                 ((int (length items) + batch_size - 1) div batch_size) (fst ?ch)]"
    have two: "limiter (snd ?ch) = limiter (default_checks cfg w 2 st)"
      by (simp add: limiter_def chat_rate_limiter chat_time_reads check_time_reads
          numeral_2_eq_2)
    from Cons.IH [of ?r "snd ?ch"] obtain n where
      n: "n \<le> 2 * length idxs"
      and l: "limiter (snd (batch_loop cfg w items operation batch_size idxs ?r (snd ?ch)))
                = limiter (default_checks cfg w n (snd ?ch))"
      by blast
    have "limiter (default_checks cfg w n (snd ?ch))
            = limiter (default_checks cfg w n (default_checks cfg w 2 st))"
      using two by (rule default_checks_limiter)
    also have "\<dots> = limiter (default_checks cfg w (2 + n) st)"
      by (simp only: default_checks_add)
    finally have e: "limiter (snd (batch_loop cfg w items operation batch_size (i # idxs)
                        results st)) = limiter (default_checks cfg w (2 + n) st)"
      unfolding batch_loop_admitted [OF True] l .
    have b: "1 \<le> 2 + n \<and> 2 + n \<le> 2 * length (i # idxs)"
      using n by simp
    from e b show ?thesis by blast
  qed
qed

text \<open>
  When the window of \<open>default\<close> has room for two admissions per start index, every check of
  the loop is admitted and every batch is posted.
\<close>

lemma batch_loop_budget:
  "int (length (rate_limiter st ''default'')) + 2 * int (length idxs)
       \<le> RATE_LIMIT_MAX_REQUESTS cfg \<Longrightarrow>
     limiter (snd (batch_loop cfg w items operation batch_size idxs results st))
       = limiter (default_checks cfg w (2 * length idxs) st)
     \<and> posted (snd (batch_loop cfg w items operation batch_size idxs results st))
       = posted st @ map (\<lambda>i. chat_request
                                 (batch_prompt operation (slice items i (i + batch_size)))
                                 batch_system_prompt (3 / 10) 1024) idxs"
proof (induction idxs arbitrary: results st)
  case Nil
  then show ?case by simp
next
  case (Cons i idxs)
  let ?f = "\<lambda>i. chat_request (batch_prompt operation (slice items i (i + batch_size)))
                   batch_system_prompt (3 / 10) 1024"
  let ?c = "check_rate_limit cfg w ''default'' st"
  let ?ch = "chat_completion cfg w (batch_prompt operation (slice items i (i + batch_size)))
               batch_system_prompt (3 / 10) 1024 ''general'' (snd ?c)"
  let ?r = "results @ [batch_result (i div batch_size + 1)
               ((int (length items) + batch_size - 1) div batch_size) (fst ?ch)]"
  let ?L = "length (rate_limiter st ''default'')"
  have room: "int ?L + 2 + 2 * int (length idxs) \<le> RATE_LIMIT_MAX_REQUESTS cfg"
    using Cons.prems by simp
  have ok1: "fst ?c"
    using room by (intro check_admits) linarith
  have l1: "length (rate_limiter (snd ?c) ''default'') \<le> Suc ?L"
    by (rule check_length)
  have ok2: "fst (check_rate_limit cfg w ''default'' (snd ?c))"
    using room l1 by (intro check_admits) linarith
  have l2: "length (rate_limiter (snd ?ch) ''default'') \<le> Suc (Suc ?L)"
    unfolding chat_rate_limiter
    using check_length [of cfg w "''default''" "snd ?c"] l1 by linarith
  have p2: "posted (snd ?ch) = posted st @ [?f i]"
    using ok2 by (simp add: chat_posted check_posted)
  have two: "limiter (snd ?ch) = limiter (default_checks cfg w 2 st)"
    by (simp add: limiter_def chat_rate_limiter chat_time_reads check_time_reads
        numeral_2_eq_2)
  have room': "int (length (rate_limiter (snd ?ch) ''default'')) + 2 * int (length idxs)
                 \<le> RATE_LIMIT_MAX_REQUESTS cfg"
    using room l2 by linarith
  note ih = Cons.IH [OF room', of ?r]
  have "limiter (default_checks cfg w (2 * length idxs) (snd ?ch))
          = limiter (default_checks cfg w (2 * length idxs) (default_checks cfg w 2 st))"
    using two by (rule default_checks_limiter)
  also have "\<dots> = limiter (default_checks cfg w (2 + 2 * length idxs) st)"
    by (simp only: default_checks_add)
  also have "2 + 2 * length idxs = 2 * length (i # idxs)"
    by simp
  finally have a: "limiter (snd (batch_loop cfg w items operation batch_size (i # idxs)
                      results st)) = limiter (default_checks cfg w (2 * length (i # idxs)) st)"
    unfolding batch_loop_admitted [OF ok1] using ih by simp
  have b: "posted (snd (batch_loop cfg w items operation batch_size (i # idxs) results st))
             = posted st @ map ?f (i # idxs)"
    unfolding batch_loop_admitted [OF ok1] using ih p2 by simp
  from a b show ?case by (rule conjI)
qed

lemma batch_process_loop:
  "items \<noteq> [] \<Longrightarrow> 0 < batch_size \<Longrightarrow>
     snd (batch_process cfg w items operation batch_size combine st)
       = snd (batch_loop cfg w items operation batch_size
                (py_range 0 (int (length items)) batch_size) [] st)"
  by (simp add: batch_process_def split_beta Let_def)

lemma batches_length:
  "length (batches items batch_size) = length (py_range 0 (int (length items)) batch_size)"
  by (simp add: batches_def)

lemma batches_nonempty:
  "items \<noteq> [] \<Longrightarrow> 0 < batch_size \<Longrightarrow> py_range 0 (int (length items)) batch_size \<noteq> []"
  by (subst py_range.simps) simp

lemma batch_process_limiter:
  assumes "items \<noteq> []" and "0 < batch_size"
  shows "\<exists>n. 1 \<le> n \<and> n \<le> 2 * length (batches items batch_size)
            \<and> limiter (snd (batch_process cfg w items operation batch_size combine st))
                = limiter (default_checks cfg w n st)"
  unfolding batch_process_loop [OF assms] batches_length
  using batch_loop_limiter [of "py_range 0 (int (length items)) batch_size" cfg w items
      operation batch_size "[]" st] batches_nonempty [OF assms]
  by blast

lemma batch_process_budget:
  assumes "items \<noteq> []" and "0 < batch_size"
    and "int (length (rate_limiter st ''default'')) + 2 * int (length (batches items batch_size))
           \<le> RATE_LIMIT_MAX_REQUESTS cfg"
  shows "limiter (snd (batch_process cfg w items operation batch_size combine st))
           = limiter (default_checks cfg w (2 * length (batches items batch_size)) st)"
    and "posted (snd (batch_process cfg w items operation batch_size combine st))
           = posted st @ map (\<lambda>b. chat_request (batch_prompt operation b)
                                      batch_system_prompt (3 / 10) 1024)
                             (batches items batch_size)"
  using batch_loop_budget [of st "py_range 0 (int (length items)) batch_size" cfg w items
      operation batch_size "[]"] assms(3)
  unfolding batch_process_loop [OF assms(1,2)] batches_length
  by (simp_all add: batches_def comp_def)

text \<open>
  Claim C10. Every rate-limit check of \<open>chat_completion\<close>, \<open>automate_menial_task\<close> and
  \<open>batch_process\<close> is a call of \<open>check_rate_limit\<close> for the client id \<open>default\<close>, and each
  tool makes at least one. What a call of \<open>chat_completion\<close> does to the windows and to the
  clock is what one check for \<open>default\<close> does; \<open>automate_menial_task\<close> does what two such
  checks in a row do when its own check is admitted and the task type is known, and what one
  does otherwise; \<open>batch_process\<close> on a non-empty list does what \<open>n\<close> checks in a row do,
  for some \<open>n\<close> from 1 to twice the number of batches, and exactly twice the number of
  batches when the window of \<open>default\<close> has that much room. Each check reads the clock once
  and, when admitted, puts its timestamp into the window of \<open>default\<close>; no check changes
  the window of another client. So whenever the window of \<open>default\<close> admits nothing, all
  three tools are refused (the batch at its first chunk): they draw on one budget.
\<close>

theorem default_client_shared_budget:
  "limiter (snd (chat_completion cfg w prompt sp temp mt mtype st))
     = limiter (default_checks cfg w 1 st)
   \<and> limiter (snd (automate_menial_task cfg w task_type task_data output_format st))
     = limiter (default_checks cfg w
         (if fst (check_rate_limit cfg w ''default'' st)
               \<and> task_prompts output_format task_type \<noteq> None then 2 else 1) st)
   \<and> (items \<noteq> [] \<and> 0 < batch_size \<longrightarrow>
        (\<exists>n. 1 \<le> n \<and> n \<le> 2 * length (batches items batch_size)
            \<and> limiter (snd (batch_process cfg w items operation batch_size combine st))
                = limiter (default_checks cfg w n st))
      \<and> (int (length (rate_limiter st ''default'')) + 2 * int (length (batches items batch_size))
            \<le> RATE_LIMIT_MAX_REQUESTS cfg \<longrightarrow>
          limiter (snd (batch_process cfg w items operation batch_size combine st))
            = limiter (default_checks cfg w (2 * length (batches items batch_size)) st)))
   \<and> time_reads (default_checks cfg w k st) = time_reads st + k
   \<and> rate_limiter (default_checks cfg w 1 st) ''default''
       = (if fst (check_rate_limit cfg w ''default'' st)
          then prune cfg (clock w (time_reads st)) (rate_limiter st ''default'')
                 @ [clock w (time_reads st)]
          else prune cfg (clock w (time_reads st)) (rate_limiter st ''default''))
   \<and> (c \<noteq> ''default'' \<longrightarrow>
       rate_limiter (default_checks cfg w k st) c = rate_limiter st c
     \<and> rate_limiter (snd (chat_completion cfg w prompt sp temp mt mtype st)) c = rate_limiter st c
     \<and> rate_limiter (snd (automate_menial_task cfg w task_type task_data output_format st)) c
         = rate_limiter st c
     \<and> rate_limiter (snd (batch_process cfg w items operation batch_size combine st)) c
         = rate_limiter st c)
   \<and> (\<not> fst (check_rate_limit cfg w ''default'' st) \<longrightarrow>
       fst (chat_completion cfg w prompt sp temp mt mtype st) = rate_limit_exceeded
     \<and> fst (automate_menial_task cfg w task_type task_data output_format st) = rate_limit_exceeded
     \<and> (items \<noteq> [] \<and> 0 < batch_size \<longrightarrow>
          fst (batch_process cfg w items operation batch_size combine st) =
            (if combine then Text (rate_limit_hit 1 0)
             else Json_dumps (int (length items)) (min batch_size (int (length items)))
                    [rate_limit_hit 1 0])))"
proof -
  have one: "rate_limiter (default_checks cfg w 1 st) ''default''
       = (if fst (check_rate_limit cfg w ''default'' st)
          then prune cfg (clock w (time_reads st)) (rate_limiter st ''default'')
                 @ [clock w (time_reads st)]
          else prune cfg (clock w (time_reads st)) (rate_limiter st ''default''))"
    by (simp add: check_same)
  have b: "items \<noteq> [] \<and> 0 < batch_size \<longrightarrow>
        (\<exists>n. 1 \<le> n \<and> n \<le> 2 * length (batches items batch_size)
            \<and> limiter (snd (batch_process cfg w items operation batch_size combine st))
                = limiter (default_checks cfg w n st))
      \<and> (int (length (rate_limiter st ''default'')) + 2 * int (length (batches items batch_size))
            \<le> RATE_LIMIT_MAX_REQUESTS cfg \<longrightarrow>
          limiter (snd (batch_process cfg w items operation batch_size combine st))
            = limiter (default_checks cfg w (2 * length (batches items batch_size)) st))"
    using batch_process_limiter [of items batch_size cfg w operation combine st]
      batch_process_budget(1) [of items batch_size st cfg w operation combine]
    by blast
  have o: "c \<noteq> ''default'' \<longrightarrow>
       rate_limiter (default_checks cfg w k st) c = rate_limiter st c
     \<and> rate_limiter (snd (chat_completion cfg w prompt sp temp mt mtype st)) c = rate_limiter st c
     \<and> rate_limiter (snd (automate_menial_task cfg w task_type task_data output_format st)) c
         = rate_limiter st c
     \<and> rate_limiter (snd (batch_process cfg w items operation batch_size combine st)) c
         = rate_limiter st c"
    by (simp add: default_checks_other chat_rate_limiter check_other automate_other
        batch_process_other)
  have d: "\<not> fst (check_rate_limit cfg w ''default'' st) \<longrightarrow>
       fst (chat_completion cfg w prompt sp temp mt mtype st) = rate_limit_exceeded
     \<and> fst (automate_menial_task cfg w task_type task_data output_format st) = rate_limit_exceeded
     \<and> (items \<noteq> [] \<and> 0 < batch_size \<longrightarrow>
          fst (batch_process cfg w items operation batch_size combine st) =
            (if combine then Text (rate_limit_hit 1 0)
             else Json_dumps (int (length items)) (min batch_size (int (length items)))
                    [rate_limit_hit 1 0]))"
    by (simp add: chat_denied automate_denied batch_process_denied)
  from chat_limiter [of cfg w prompt sp temp mt mtype st]
    automate_limiter [of cfg w task_type task_data output_format st]
    b default_checks_time [of cfg w k st] one o d
  show ?thesis by (intro conjI)
qed

theorem default_client_shared_budget_witness:
  "''alice'' \<noteq> ''default''
   \<and> fst (check_rate_limit small_config ticking_world ''default'' initial_state)
   \<and> task_prompts ''json'' ''format'' \<noteq> None
   \<and> rate_limiter (snd (automate_menial_task small_config ticking_world ''format'' ''a,b'' ''json''
        initial_state)) ''default'' = [0, 1]
   \<and> rate_limiter (snd (chat_completion small_config ticking_world ''hi'' [] (7 / 10) 1024
        ''general'' initial_state)) ''default'' = [0]
   \<and> [''x'', ''y''] \<noteq> [] \<and> (0 :: int) < 1
   \<and> int (length (rate_limiter initial_state ''default'')) + 2 * int (length (batches [''x'', ''y''] 1))
        \<le> RATE_LIMIT_MAX_REQUESTS default_config
   \<and> rate_limiter (snd (batch_process default_config ticking_world [''x'', ''y''] ''upper'' 1 True
        initial_state)) ''default'' = [0, 1, 2, 3]
   \<and> rate_limiter (snd (batch_process small_config ticking_world [''x'', ''y''] ''upper'' 1 True
        initial_state)) ''alice'' = []
   \<and> \<not> fst (check_rate_limit small_config ticking_world ''default'' busy_state)
   \<and> fst (automate_menial_task small_config ticking_world ''format'' ''a,b'' ''json'' busy_state)
       = rate_limit_exceeded
   \<and> fst (batch_process small_config ticking_world [''x'', ''y''] ''upper'' 1 True busy_state)
       = Text (rate_limit_hit 1 0)"
proof -
  have c: "''alice'' \<noteq> ''default''" by simp
  have ok: "fst (check_rate_limit small_config ticking_world ''default'' initial_state)"
    by (simp add: check_fst prune_def initial_state_def small_config_def default_config_def)
  have tp: "task_prompts ''json'' ''format'' \<noteq> None"
    by (simp add: task_prompts_def)
  have no: "\<not> fst (check_rate_limit small_config ticking_world ''default'' busy_state)"
    by (simp add: check_fst prune_def busy_state_def initial_state_def small_config_def
        default_config_def ticking_world_def)
  have i: "rate_limiter initial_state ''alice'' = []"
    by (simp add: initial_state_def)
  have nb: "length (batches [''x'', ''y''] 1) = 2"
    by code_simp
  have room: "int (length (rate_limiter initial_state ''default''))
                + 2 * int (length (batches [''x'', ''y''] 1))
              \<le> RATE_LIMIT_MAX_REQUESTS default_config"
    unfolding nb by (simp add: initial_state_def default_config_def)
  have d1: "rate_limiter (default_checks small_config ticking_world 1 initial_state) ''default''
              = [0]"
    by (simp add: check_rate_limit_def prune_def Let_def initial_state_def small_config_def
        default_config_def ticking_world_def)
  have d2: "rate_limiter (default_checks small_config ticking_world 2 initial_state) ''default''
              = [0, 1]"
    by (simp add: numeral_2_eq_2 check_rate_limit_def prune_def Let_def initial_state_def
        small_config_def default_config_def ticking_world_def)
  have d4: "rate_limiter (default_checks default_config ticking_world 4 initial_state) ''default''
              = [0, 1, 2, 3]"
    by (simp add: numeral_eq_Suc check_rate_limit_def prune_def Let_def initial_state_def
        default_config_def ticking_world_def)
  note a = default_client_shared_budget [of small_config ticking_world "''hi''" "[]"
      "7 / 10" 1024 "''general''" initial_state "''format''" "''a,b''" "''json''"
      "[''x'', ''y'']" 1 "''upper''" True 0 "''alice''"]
  note b = default_client_shared_budget [of small_config ticking_world "''hi''" "[]"
      "7 / 10" 1024 "''general''" busy_state "''format''" "''a,b''" "''json''"
      "[''x'', ''y'']" 1 "''upper''" True 0 "''alice''"]
  note e = default_client_shared_budget [of default_config ticking_world "''hi''" "[]"
      "7 / 10" 1024 "''general''" initial_state "''format''" "''a,b''" "''json''"
      "[''x'', ''y'']" 1 "''upper''" True 0 "''alice''"]
  from a ok tp have "limiter (snd (automate_menial_task small_config ticking_world ''format''
        ''a,b'' ''json'' initial_state))
      = limiter (default_checks small_config ticking_world 2 initial_state)"
    by simp
  then have 1: "rate_limiter (snd (automate_menial_task small_config ticking_world ''format''
        ''a,b'' ''json'' initial_state)) ''default'' = [0, 1]"
    unfolding limiter_def using d2 by simp
  from a have "limiter (snd (chat_completion small_config ticking_world ''hi'' [] (7 / 10) 1024
        ''general'' initial_state))
      = limiter (default_checks small_config ticking_world 1 initial_state)"
    by (rule conjunct1)
  then have 2: "rate_limiter (snd (chat_completion small_config ticking_world ''hi'' [] (7 / 10)
        1024 ''general'' initial_state)) ''default'' = [0]"
    unfolding limiter_def using d1 by simp
  from e room have "limiter (snd (batch_process default_config ticking_world [''x'', ''y'']
        ''upper'' 1 True initial_state))
      = limiter (default_checks default_config ticking_world 4 initial_state)"
    unfolding nb by simp
  then have 3: "rate_limiter (snd (batch_process default_config ticking_world [''x'', ''y'']
        ''upper'' 1 True initial_state)) ''default'' = [0, 1, 2, 3]"
    unfolding limiter_def using d4 by simp
  from a c i have 4: "rate_limiter (snd (batch_process small_config ticking_world [''x'', ''y'']
        ''upper'' 1 True initial_state)) ''alice'' = []"
    by simp
  from b no have 5: "fst (automate_menial_task small_config ticking_world ''format'' ''a,b''
        ''json'' busy_state) = rate_limit_exceeded"
    and 6: "fst (batch_process small_config ticking_world [''x'', ''y''] ''upper'' 1 True
        busy_state) = Text (rate_limit_hit 1 0)"
    by simp_all
  from c ok tp 1 2 room 3 4 no 5 6 show ?thesis by simp
qed

subsection \<open>Summarize and analyze\<close>

lemma chat_store_independent:
  "chat_completion cfg w prompt sp temp mt mtype (st\<lparr>context_store := cs\<rparr>)
     = (fst (chat_completion cfg w prompt sp temp mt mtype st),
        (snd (chat_completion cfg w prompt sp temp mt mtype st))\<lparr>context_store := cs\<rparr>)"
  by (simp add: chat_completion_def check_rate_limit_def Let_def
      split: backend_reply.splits payload.splits list.splits)

lemma chat_ticking_done:
  "chat_completion default_config ticking_world prompt sp temp mt mtype initial_state
     = (''done'', initial_state\<lparr>time_reads := 1, rate_limiter := (\<lambda>_. [])(''default'' := [0]),
                   posted := [chat_request prompt sp temp mt]\<rparr>)"
  by (simp add: chat_completion_def check_rate_limit_def prune_def Let_def default_config_def
      ticking_world_def initial_state_def chat_request_def)

text \<open>
  Claim C2 as stated fails: with an empty store, summarize and analyze of the id \<open>ghost\<close>
  return the summary and the analysis, not the "not found" text.
\<close>

theorem derive_absent_id_counterexample:
  "map_of (context_store initial_state) ''ghost'' = None
   \<and> fst (offload_context default_config ticking_world ''ghost'' ''some text'' ''summarize''
            initial_state) = memo_sign @ '' Summary created:'' @ [nl, nl] @ ''done''
   \<and> fst (offload_context default_config ticking_world ''ghost'' ''some text'' ''summarize''
            initial_state) \<noteq> context_not_found ''ghost''
   \<and> fst (offload_context default_config ticking_world ''ghost'' ''some text'' ''analyze''
            initial_state) = magnifier_sign @ '' Analysis:'' @ [nl, nl] @ ''done''
   \<and> fst (offload_context default_config ticking_world ''ghost'' ''some text'' ''analyze''
            initial_state) \<noteq> context_not_found ''ghost''"
  by (simp add: offload_context_def chat_ticking_done context_not_found_def memo_sign_def
      magnifier_sign_def cross_mark_def)
  (simp add: initial_state_def)

text \<open>
  Claim C2, amended. For every id, data and state, summarize and analyze never look the id
  up: they send the \<open>context_data\<close> they were given through \<open>chat_completion\<close> and return
  the summary or analysis text built from its answer. The text returned does not depend on
  the contents of the store, and it is never the "not found" text.
\<close>

theorem derive_ignores_store:
  "fst (offload_context cfg w context_id context_data ''summarize'' st)
     = memo_sign @ '' Summary created:'' @ [nl, nl]
         @ fst (chat_completion cfg w (''Please summarize this context:'' @ [nl, nl] @ context_data)
                  summarize_system_prompt (3 / 10) 500 ''general'' st)
   \<and> fst (offload_context cfg w context_id context_data ''analyze'' st)
     = magnifier_sign @ '' Analysis:'' @ [nl, nl]
         @ fst (chat_completion cfg w
                  (''Analyze this context and extract key information:'' @ [nl, nl] @ context_data)
                  analyze_system_prompt (3 / 10) 800 ''general'' st)
   \<and> fst (offload_context cfg w context_id context_data ''summarize'' (st\<lparr>context_store := cs\<rparr>))
     = fst (offload_context cfg w context_id context_data ''summarize'' st)
   \<and> fst (offload_context cfg w context_id context_data ''analyze'' (st\<lparr>context_store := cs\<rparr>))
     = fst (offload_context cfg w context_id context_data ''analyze'' st)
   \<and> fst (offload_context cfg w context_id context_data ''summarize'' st)
       \<noteq> context_not_found context_id
   \<and> fst (offload_context cfg w context_id context_data ''analyze'' st)
       \<noteq> context_not_found context_id"
  by (simp add: offload_context_def split_beta chat_store_independent context_not_found_def
      memo_sign_def magnifier_sign_def cross_mark_def)

lemma str_int_100: "str_int 100 = ''100''"
  by (simp add: str_int_def digits.simps [of 100] digits.simps [of 10] digits.simps [of "Suc 0"])

lemma str_int_101: "str_int 101 = ''101''"
  by (simp add: str_int_def digits.simps [of 101] digits.simps [of 10] digits.simps [of "Suc 0"])

text \<open>
  Claim C3 fails on the summarize path. With \<open>MAX_CONTEXT_SIZE = 100\<close> and a summary of
  404 characters, summarize stores the entry \<open>doc_summary\<close> with 101 tokens, above the
  limit, while a store of the same data under the same id is refused as too large.
\<close>

theorem summarize_stores_oversized_entry:
  "MAX_CONTEXT_SIZE summary_config = 100
   \<and> offload_context summary_config verbose_world ''doc'' ''text'' ''summarize'' initial_state
      = (memo_sign @ '' Summary created:'' @ [nl, nl] @ replicate 404 CHR ''a'',
         \<lparr>rate_limiter = (\<lambda>_. [])(''default'' := [0]),
          context_store = [(''doc_summary'',
             \<lparr>data = replicate 404 CHR ''a'', timestamp = ''2025-01-01T00:00:00'',
              tokens = 101\<rparr>)],
          time_reads = 1, iso_reads = 1,
          posted = [chat_request (''Please summarize this context:'' @ [nl, nl] @ ''text'')
                      summarize_system_prompt (3 / 10) 500]\<rparr>)
   \<and> offload_context summary_config verbose_world ''doc_summary'' (replicate 404 CHR ''a'')
        ''store'' initial_state
      = (warning_sign @ '' Context too large (101 tokens). Maximum is 100 tokens.'', initial_state)"
  by (simp add: offload_context_def chat_completion_def check_rate_limit_def prune_def Let_def
      summary_config_def default_config_def verbose_world_def ticking_world_def initial_state_def
      chat_request_def estimate_tokens_def context_too_large_def str_int_100 str_int_101)

subsection \<open>Batches\<close>

lemma div_step: "0 < (k::int) \<Longrightarrow> (a + k) div k = a div k + 1"
  by simp

lemma div_small: "(a::int) < k \<Longrightarrow> 0 < k \<Longrightarrow> a div k \<le> 0"
proof (cases "0 \<le> a")
  case True
  assume "a < k" "0 < k"
  with True have "a div k = 0" by (simp add: div_pos_pos_trivial)
  then show ?thesis by simp
next
  case False
  assume "0 < k"
  with False have "a div k < 0" by (simp add: div_neg_pos_less0)
  then show ?thesis by simp
qed

lemma py_range_Cons:
  "0 < step \<Longrightarrow> i < stop \<Longrightarrow> py_range i stop step = i # py_range (i + step) stop step"
  by (subst py_range.simps) simp

lemma py_range_Nil: "\<not> (0 < step \<and> i < stop) \<Longrightarrow> py_range i stop step = []"
  by (subst py_range.simps) simp

lemma py_range_closed:
  "0 < step \<Longrightarrow>
     py_range i stop step
       = map (\<lambda>m. i + int m * step) [0..<nat ((stop - i + step - 1) div step)]"
proof (induction i stop step rule: py_range.induct)
  case (1 i stop step)
  let ?n' = "nat ((stop - (i + step) + step - 1) div step)"
  show ?case
  proof (cases "i < stop")
    case True
    have e: "stop - i + step - 1 = (stop - (i + step) + step - 1) + step"
      by simp
    have d: "(stop - i + step - 1) div step = (stop - (i + step) + step - 1) div step + 1"
      unfolding e using 1(2) by (rule div_step)
    have "0 \<le> stop - (i + step) + step - 1"
      using True by simp
    then have nn: "0 \<le> (stop - (i + step) + step - 1) div step"
      using 1(2) by (simp only: pos_imp_zdiv_nonneg_iff)
    have n: "nat ((stop - i + step - 1) div step) = Suc ?n'"
      using d nn by linarith
    have ih: "py_range (i + step) stop step = map (\<lambda>m. (i + step) + int m * step) [0..<?n']"
      using 1(1) True 1(2) by blast
    have m: "map (\<lambda>m. i + int m * step) [0..<Suc ?n']
               = i # map (\<lambda>m. (i + step) + int m * step) [0..<?n']"
      unfolding upt_conv_Cons [OF zero_less_Suc] map_Suc_upt [symmetric]
      by (simp add: algebra_simps)
    show ?thesis
      unfolding n m py_range_Cons [OF 1(2) True] ih ..
  next
    case False
    then have "stop - i + step - 1 < step" by simp
    then have "(stop - i + step - 1) div step \<le> 0"
      using 1(2) by (rule div_small)
    then show ?thesis using False by (simp add: py_range_Nil)
  qed
qed

lemma batches_closed:
  assumes "0 < k"
  shows "batches items k
           = map (\<lambda>m. take (nat k) (drop (m * nat k) items))
               [0..<nat ((int (length items) + k - 1) div k)]"
proof -
  have "slice items (0 + int m * k) (0 + int m * k + k) = take (nat k) (drop (m * nat k) items)"
    for m
    using assms by (simp add: slice_def nat_mult_distrib)
  then show ?thesis
    unfolding batches_def py_range_closed [OF assms] by simp
qed

lemma chunk_count:
  fixes k :: int and N :: nat
  assumes "0 < k"
  defines "n \<equiv> nat ((int N + k - 1) div k)"
  shows "N \<le> n * nat k" and "0 < N \<Longrightarrow> (n - 1) * nat k < N" and "0 < N \<Longrightarrow> 0 < n"
    and "int n = (int N + k - 1) div k"
proof -
  let ?a = "int N + k - 1"
  let ?q = "?a div k"
  have a0: "0 \<le> ?a" using assms(1) by simp
  have q0: "0 \<le> ?q" using a0 assms(1) by (simp only: pos_imp_zdiv_nonneg_iff)
  have eq: "?q * k + ?a mod k = ?a" by (rule div_mult_mod_eq)
  have m1: "0 \<le> ?a mod k" using assms(1) by (rule pos_mod_sign)
  have m2: "?a mod k < k" using assms(1) by (rule pos_mod_bound)
  have up: "int N \<le> ?q * k" using eq m2 by linarith
  have lo: "?q * k - k < int N" using eq m1 by linarith
  have nk: "int (n * nat k) = ?q * k"
    using q0 assms(1) by (simp add: n_def)
  show "int n = ?q" using q0 by (simp add: n_def)
  show "N \<le> n * nat k" using up nk by linarith
  show pos: "0 < n" if "0 < N"
  proof -
    have "k \<le> ?a" using that by simp
    then have "k div k \<le> ?q" using assms(1) by (rule zdiv_mono1)
    then have "1 \<le> ?q" using assms(1) by simp
    then show ?thesis by (simp add: n_def)
  qed
  show "(n - 1) * nat k < N" if "0 < N"
  proof -
    have "int ((n - 1) * nat k) = ?q * k - k"
      using pos [OF that] nk assms(1) by (simp add: algebra_simps of_nat_diff)
    then show ?thesis using lo by linarith
  qed
qed

lemma concat_chunks:
  "concat (map (\<lambda>m. take K (drop (m * K) xs)) [0..<n]) = take (n * K) xs"
proof (induction n)
  case 0
  then show ?case by simp
next
  case (Suc n)
  have "take (n * K + K) xs = take (n * K) xs @ take K (drop (n * K) xs)"
    by (rule take_add)
  then show ?case using Suc by (simp add: add.commute)
qed

lemma batch_loop_posted:
  "\<exists>ps. posted (snd (batch_loop cfg w items operation batch_size idxs results st)) = posted st @ ps
        \<and> subseq ps (map (\<lambda>i. chat_request
                                 (batch_prompt operation (slice items i (i + batch_size)))
                                 batch_system_prompt (3 / 10) 1024) idxs)"
proof (induction idxs arbitrary: results st)
  case Nil
  have "posted (snd (batch_loop cfg w items operation batch_size [] results st)) = posted st @ []"
    by simp
  moreover have "subseq [] (map (\<lambda>i. chat_request
                                 (batch_prompt operation (slice items i (i + batch_size)))
                                 batch_system_prompt (3 / 10) 1024) [])"
    by simp
  ultimately show ?case by blast
next
  case (Cons i idxs)
  let ?f = "\<lambda>i. chat_request (batch_prompt operation (slice items i (i + batch_size)))
                   batch_system_prompt (3 / 10) 1024"
  let ?c = "check_rate_limit cfg w ''default'' st"
  show ?case
  proof (cases "fst ?c")
    case False
    have "posted (snd (batch_loop cfg w items operation batch_size (i # idxs) results st))
            = posted st @ []"
      unfolding batch_loop_denied [OF False] by (simp add: check_posted)
    moreover have "subseq [] (map ?f (i # idxs))"
      by simp
    ultimately show ?thesis by blast
  next
    case True
    let ?ch = "chat_completion cfg w (batch_prompt operation (slice items i (i + batch_size)))
                 batch_system_prompt (3 / 10) 1024 ''general'' (snd ?c)"
    let ?r = "results @ [batch_result (i div batch_size + 1)
                 ((int (length items) + batch_size - 1) div batch_size) (fst ?ch)]"
    from Cons.IH [of ?r "snd ?ch"] obtain ps where
      ps: "posted (snd (batch_loop cfg w items operation batch_size idxs ?r (snd ?ch)))
             = posted (snd ?ch) @ ps" and sub: "subseq ps (map ?f idxs)"
      by blast
    show ?thesis
    proof (cases "fst (check_rate_limit cfg w ''default'' (snd ?c))")
      case True
      have "posted (snd ?ch) = posted st @ [?f i]"
        using True by (simp add: chat_posted check_posted)
      then have "posted (snd (batch_loop cfg w items operation batch_size (i # idxs) results st))
                   = posted st @ (?f i # ps)"
        unfolding batch_loop_admitted [OF \<open>fst ?c\<close>] ps by simp
      moreover have "subseq (?f i # ps) (map ?f (i # idxs))"
        using sub by simp
      ultimately show ?thesis by blast
    next
      case False
      have "posted (snd ?ch) = posted st"
        using False by (simp add: chat_posted check_posted)
      then have "posted (snd (batch_loop cfg w items operation batch_size (i # idxs) results st))
                   = posted st @ ps"
        unfolding batch_loop_admitted [OF \<open>fst ?c\<close>] ps by simp
      moreover have "subseq ps (map ?f (i # idxs))"
        unfolding list.map using sub by (rule list_emb_Cons)
      ultimately show ?thesis by blast
    qed
  qed
qed

lemma batch_process_posted:
  assumes "items \<noteq> []" and "0 < batch_size"
  shows "\<exists>ps. posted (snd (batch_process cfg w items operation batch_size combine st))
                 = posted st @ ps
             \<and> subseq ps (map (\<lambda>b. chat_request (batch_prompt operation b)
                                      batch_system_prompt (3 / 10) 1024)
                            (batches items batch_size))"
  unfolding batch_process_loop [OF assms]
  using batch_loop_posted [of cfg w items operation batch_size
        "py_range 0 (int (length items)) batch_size" "[]" st]
  by (simp add: batches_def comp_def)

text \<open>
  Claim C7. For a list of \<open>N > 0\<close> items and a batch size \<open>k > 0\<close>, the batches that the
  loop of \<open>batch_process\<close> cuts are consecutive and in input order (their concatenation is
  the list), there are \<open>(N + k - 1) div k\<close> of them, which is the ceiling of \<open>N / k\<close>, every
  batch but the last has exactly \<open>k\<close> items, the last has at least one and at most \<open>k\<close>,
  and the sizes add up to \<open>N\<close>. The requests that one call of \<open>batch_process\<close> posts are,
  in order, requests of these batches: a subsequence of the batches' requests, and, when the
  window of \<open>default\<close> has room for two admissions per batch, the request of every batch,
  one after the other in the order of the input.
\<close>

theorem batches_partition:
  assumes "items \<noteq> []" and "0 < batch_size"
  shows "concat (batches items batch_size) = items
     \<and> int (length (batches items batch_size))
         = (int (length items) + batch_size - 1) div batch_size
     \<and> int (length (batches items batch_size))
         = \<lceil>real (length items) / real_of_int batch_size\<rceil>
     \<and> (\<forall>m < length (batches items batch_size).
           length (batches items batch_size ! m)
             = (if Suc m < length (batches items batch_size) then nat batch_size
                else length items - m * nat batch_size))
     \<and> 0 < length (last (batches items batch_size))
     \<and> int (length (last (batches items batch_size))) \<le> batch_size
     \<and> sum_list (map length (batches items batch_size)) = length items
     \<and> (\<exists>ps. posted (snd (batch_process cfg w items operation batch_size combine st))
                 = posted st @ ps
             \<and> subseq ps (map (\<lambda>b. chat_request (batch_prompt operation b)
                                      batch_system_prompt (3 / 10) 1024)
                            (batches items batch_size)))
     \<and> (int (length (rate_limiter st ''default'')) + 2 * int (length (batches items batch_size))
           \<le> RATE_LIMIT_MAX_REQUESTS cfg \<longrightarrow>
         posted (snd (batch_process cfg w items operation batch_size combine st))
           = posted st @ map (\<lambda>b. chat_request (batch_prompt operation b)
                                      batch_system_prompt (3 / 10) 1024)
                             (batches items batch_size))"
proof -
  define K where "K = nat batch_size"
  define N where "N = length items"
  define n where "n = nat ((int N + batch_size - 1) div batch_size)"
  have N0: "0 < N" using assms(1) by (simp add: N_def)
  have K0: "0 < K" using assms(2) by (simp add: K_def)
  have up: "N \<le> n * K" and lo: "(n - 1) * K < N" and n0: "0 < n"
    and ni: "int n = (int N + batch_size - 1) div batch_size"
    using chunk_count [OF assms(2), of N] N0 by (simp_all add: n_def K_def)
  have bs: "batches items batch_size = map (\<lambda>m. take K (drop (m * K) items)) [0..<n]"
    using batches_closed [OF assms(2), of items] by (simp add: K_def n_def N_def)
  have len: "length (batches items batch_size) = n"
    by (simp add: bs)
  have c: "concat (batches items batch_size) = items"
    unfolding bs concat_chunks using up by (simp add: N_def)
  have sizes: "length (batches items batch_size ! m) = (if Suc m < n then K else N - m * K)"
    if "m < n" for m
  proof (cases "Suc m < n")
    case True
    then have "Suc m * K \<le> (n - 1) * K" by (intro mult_le_mono1) simp
    with lo have "Suc m * K < N" by simp
    then show ?thesis using that True by (simp add: bs N_def)
  next
    case False
    with that have m: "m = n - 1" by simp
    have "N - m * K \<le> K"
      using up n0 unfolding m by (cases n) simp_all
    then show ?thesis using that False by (simp add: bs N_def)
  qed
  have lastb: "last (batches items batch_size) = batches items batch_size ! (n - 1)"
    using n0 len by (metis last_conv_nth length_0_conv less_numeral_extra(3))
  have ll: "length (last (batches items batch_size)) = N - (n - 1) * K"
    unfolding lastb using sizes [of "n - 1"] n0 by simp
  have l1: "0 < length (last (batches items batch_size))"
    unfolding ll using lo by simp
  have l2: "int (length (last (batches items batch_size))) \<le> batch_size"
  proof -
    have "N - (n - 1) * K \<le> K" using up n0 by (cases n) simp_all
    then show ?thesis unfolding ll using assms(2) by (simp add: K_def)
  qed
  have s: "sum_list (map length (batches items batch_size)) = length items"
    using c by (metis length_concat)
  have ce: "int n = \<lceil>real N / real_of_int batch_size\<rceil>"
  proof (rule sym, rule ceiling_unique)
    have kr: "real_of_int batch_size = real K" using assms(2) by (simp add: K_def)
    have "real ((n - 1) * K) < real N" using lo by (simp only: of_nat_less_iff)
    then have "(real n - 1) * real K < real N" using n0 by (simp add: of_nat_diff)
    then show "real_of_int (int n) - 1 < real N / real_of_int batch_size"
      unfolding kr using K0 by (simp add: pos_less_divide_eq)
    have "real N \<le> real (n * K)" using up by (simp only: of_nat_le_iff)
    then show "real N / real_of_int batch_size \<le> real_of_int (int n)"
      unfolding kr using K0 by (simp add: pos_divide_le_eq)
  qed
  have all: "int (length (rate_limiter st ''default''))
               + 2 * int (length (batches items batch_size)) \<le> RATE_LIMIT_MAX_REQUESTS cfg \<longrightarrow>
         posted (snd (batch_process cfg w items operation batch_size combine st))
           = posted st @ map (\<lambda>b. chat_request (batch_prompt operation b)
                                      batch_system_prompt (3 / 10) 1024)
                             (batches items batch_size)"
    using batch_process_budget(2) [OF assms, of st cfg w operation combine] by blast
  have sz: "\<forall>m < length (batches items batch_size).
           length (batches items batch_size ! m)
             = (if Suc m < length (batches items batch_size) then nat batch_size
                else length items - m * nat batch_size)"
    using sizes unfolding len N_def K_def by blast
  from c ni [folded len, unfolded N_def] ce [folded len, unfolded N_def] sz l1 l2 s
    batch_process_posted [OF assms, of cfg w operation combine st] all
  show ?thesis by (intro conjI)
qed

theorem batches_partition_witness:
  "[''a'', ''b'', ''c'', ''d'', ''e'', ''f'', ''g''] \<noteq> [] \<and> (0 :: int) < 3
   \<and> batches [''a'', ''b'', ''c'', ''d'', ''e'', ''f'', ''g''] 3
       = [[''a'', ''b'', ''c''], [''d'', ''e'', ''f''], [''g'']]
   \<and> concat (batches [''a'', ''b'', ''c'', ''d'', ''e'', ''f'', ''g''] 3)
       = [''a'', ''b'', ''c'', ''d'', ''e'', ''f'', ''g'']
   \<and> int (length (batches [''a'', ''b'', ''c'', ''d'', ''e'', ''f'', ''g''] 3))
       = \<lceil>real (length [''a'', ''b'', ''c'', ''d'', ''e'', ''f'', ''g'']) / real_of_int 3\<rceil>
   \<and> int (length (rate_limiter initial_state ''default''))
        + 2 * int (length (batches [''a'', ''b'', ''c'', ''d'', ''e'', ''f'', ''g''] 3))
       \<le> RATE_LIMIT_MAX_REQUESTS default_config
   \<and> posted (snd (batch_process default_config ticking_world
                [''a'', ''b'', ''c'', ''d'', ''e'', ''f'', ''g''] ''upper'' 3 True initial_state))
       = map (\<lambda>b. chat_request (batch_prompt ''upper'' b) batch_system_prompt (3 / 10) 1024)
           [[''a'', ''b'', ''c''], [''d'', ''e'', ''f''], [''g'']]"
proof -
  have a: "[''a'', ''b'', ''c'', ''d'', ''e'', ''f'', ''g''] \<noteq> []" by simp
  have b: "(0 :: int) < 3" by simp
  have e: "batches [''a'', ''b'', ''c'', ''d'', ''e'', ''f'', ''g''] 3
       = [[''a'', ''b'', ''c''], [''d'', ''e'', ''f''], [''g'']]"
    by code_simp
  have room: "int (length (rate_limiter initial_state ''default''))
        + 2 * int (length (batches [''a'', ''b'', ''c'', ''d'', ''e'', ''f'', ''g''] 3))
       \<le> RATE_LIMIT_MAX_REQUESTS default_config"
    unfolding e by (simp add: initial_state_def default_config_def)
  have p: "posted initial_state = []"
    by (simp add: initial_state_def)
  note t = batches_partition [OF a b, of default_config ticking_world "''upper''" True initial_state]
  from t have 1: "concat (batches [''a'', ''b'', ''c'', ''d'', ''e'', ''f'', ''g''] 3)
       = [''a'', ''b'', ''c'', ''d'', ''e'', ''f'', ''g'']"
    by (rule conjunct1)
  from t have 2: "int (length (batches [''a'', ''b'', ''c'', ''d'', ''e'', ''f'', ''g''] 3))
       = \<lceil>real (length [''a'', ''b'', ''c'', ''d'', ''e'', ''f'', ''g'']) / real_of_int 3\<rceil>"
    by blast
  from t room have "posted (snd (batch_process default_config ticking_world
                [''a'', ''b'', ''c'', ''d'', ''e'', ''f'', ''g''] ''upper'' 3 True initial_state))
       = posted initial_state
           @ map (\<lambda>b. chat_request (batch_prompt ''upper'' b) batch_system_prompt (3 / 10) 1024)
               (batches [''a'', ''b'', ''c'', ''d'', ''e'', ''f'', ''g''] 3)"
    by blast
  then have 3: "posted (snd (batch_process default_config ticking_world
                [''a'', ''b'', ''c'', ''d'', ''e'', ''f'', ''g''] ''upper'' 3 True initial_state))
       = map (\<lambda>b. chat_request (batch_prompt ''upper'' b) batch_system_prompt (3 / 10) 1024)
           [[''a'', ''b'', ''c''], [''d'', ''e'', ''f''], [''g'']]"
    unfolding e p by simp
  from a b e 1 2 room 3 show ?thesis by (intro conjI)
qed

text \<open>
  Claim C4 fails on the code. With the default configuration (30 requests in 60 seconds), a
  fresh state and 16 items in batches of 1, fifteen batches are sent (two admissions each)
  and the sixteenth is refused: the message says 15 items were processed, but the structured
  result reports 16 processed items, and its result list holds the warning as a sixteenth
  entry. With an odd maximum of 3, the second batch is refused inside \<open>chat_completion\<close>;
  the loop does not stop there, takes the rate-limit text as the batch's output, and at the
  third batch reports 2 items processed (3 in the structured result) after one request.
\<close>

theorem batch_process_overcounts:
  "fst (batch_process default_config ticking_world (replicate 16 ''x'') ''upper'' 1 False
          initial_state)
     = Json_dumps 16 16
         (map (\<lambda>m. batch_result (int m) 16 ''done'') [1..<16] @ [rate_limit_hit 16 15])
   \<and> length (posted (snd (batch_process default_config ticking_world (replicate 16 ''x'')
                ''upper'' 1 False initial_state))) = 15
   \<and> fst (batch_process odd_config ticking_world [''x'', ''y'', ''z''] ''upper'' 1 False
            initial_state)
     = Json_dumps 3 3
         [batch_result 1 3 ''done'', batch_result 2 3 rate_limit_exceeded, rate_limit_hit 3 2]
   \<and> length (posted (snd (batch_process odd_config ticking_world [''x'', ''y'', ''z''] ''upper''
                1 False initial_state))) = 1"
  by code_simp

end
